theory Spec2Isabelle
  imports Main
begin

section \<open>The crawler of main.go\<close>

text \<open>
  The program is one Go file. Go strings are byte sequences and are modelled by
  \<open>string\<close> (a list of 8-bit characters); a \<open>[]byte\<close> is modelled the same way, the
  \<open>nil\<close> slice being the empty one wherever the program only reads its bytes.
  A Go \<open>error\<close> is a value of type \<open>error\<close>; a run-time panic is a value of type
  \<open>panic\<close>: the program can panic by dereferencing a nil pointer and inside
  \<open>regexp.MustCompile\<close>.

  The standard library is not part of the repository. The parts the program's results
  depend on (\<open>strings\<close>, \<open>net/url\<close>, \<open>path\<close>, \<open>path/filepath\<close>, \<open>unicode/utf8\<close>, and the
  one regular expression the program compiles) are modelled below after the documented
  behaviour of the library; the network, the HTML parser and the failures of the file
  system are parameters (a \<open>world\<close>).
\<close>

datatype error = Err string

datatype panic = NilDereference | RegexpCompile

subsection \<open>Package strings\<close>

definition HasPrefix :: "string \<Rightarrow> string \<Rightarrow> bool" where
  "HasPrefix s p = (take (length p) s = p)"

definition HasSuffix :: "string \<Rightarrow> string \<Rightarrow> bool" where
  "HasSuffix s p = (length p \<le> length s \<and> drop (length s - length p) s = p)"

definition TrimSuffix :: "string \<Rightarrow> string \<Rightarrow> string" where
  "TrimSuffix s suf = (if HasSuffix s suf then take (length s - length suf) s else s)"

definition byte :: "char \<Rightarrow> nat" where
  "byte c = of_char c"

definition isLower :: "char \<Rightarrow> bool" where
  "isLower c = (0x61 \<le> byte c \<and> byte c \<le> 0x7A)"

definition isUpper :: "char \<Rightarrow> bool" where
  "isUpper c = (0x41 \<le> byte c \<and> byte c \<le> 0x5A)"

definition isDigit :: "char \<Rightarrow> bool" where
  "isDigit c = (0x30 \<le> byte c \<and> byte c \<le> 0x39)"

definition ToLower :: "string \<Rightarrow> string" where
  "ToLower s = map (\<lambda>c. if isUpper c then char_of (byte c + 0x20) else c) s"

text \<open>
  \<open>strings.Cut\<close> at the first occurrence of a one-byte separator (\<open>before\<close>, \<open>after\<close>), the
  same at the last occurrence (\<open>strings.LastIndex\<close>), and \<open>strings.Index\<close>.
\<close>

definition before :: "char \<Rightarrow> string \<Rightarrow> string" where
  "before sep s = takeWhile (\<lambda>c. c \<noteq> sep) s"

definition after :: "char \<Rightarrow> string \<Rightarrow> string" where
  "after sep s = drop 1 (dropWhile (\<lambda>c. c \<noteq> sep) s)"

definition beforeLast :: "char \<Rightarrow> string \<Rightarrow> string" where
  "beforeLast sep s = rev (after sep (rev s))"

definition afterLast :: "char \<Rightarrow> string \<Rightarrow> string" where
  "afterLast sep s = rev (before sep (rev s))"

fun Index :: "string \<Rightarrow> string \<Rightarrow> nat option" where
  "Index [] sub = (if sub = [] then Some 0 else None)"
| "Index (c # s) sub = (if HasPrefix (c # s) sub then Some 0 else map_option Suc (Index s sub))"

subsection \<open>Package unicode/utf8\<close>

text \<open>
  \<open>utf8.DecodeRuneInString\<close> reads one rune (a code point, here a \<open>nat\<close>) from the front
  of a string and says how many bytes it took; a byte sequence that is not a well-formed
  encoding yields \<open>RuneError\<close> (U+FFFD) and takes one byte. \<open>runes\<close> is the sequence a
  \<open>range\<close> loop, and the regexp matcher, read from a string.
\<close>

definition RuneError :: nat where
  "RuneError = 0xFFFD"

definition acceptLo :: "nat \<Rightarrow> nat" where
  "acceptLo b0 = (if b0 = 0xE0 then 0xA0 else if b0 = 0xF0 then 0x90 else 0x80)"

definition acceptHi :: "nat \<Rightarrow> nat" where
  "acceptHi b0 = (if b0 = 0xED then 0x9F else if b0 = 0xF4 then 0x8F else 0xBF)"

definition cont :: "char \<Rightarrow> bool" where
  "cont c = (0x80 \<le> (of_char c :: nat) \<and> (of_char c :: nat) \<le> 0xBF)"

definition accept :: "nat \<Rightarrow> char \<Rightarrow> bool" where
  "accept b0 c = (acceptLo b0 \<le> (of_char c :: nat) \<and> (of_char c :: nat) \<le> acceptHi b0)"

fun decode2 :: "nat \<Rightarrow> string \<Rightarrow> nat \<times> nat" where
  "decode2 b0 (c1 # s) =
     (if accept b0 c1 then ((b0 mod 32) * 64 + of_char c1 mod 64, 2) else (RuneError, 1))"
| "decode2 b0 [] = (RuneError, 1)"

fun decode3 :: "nat \<Rightarrow> string \<Rightarrow> nat \<times> nat" where
  "decode3 b0 (c1 # c2 # s) =
     (if accept b0 c1 \<and> cont c2
      then ((b0 mod 16) * 4096 + (of_char c1 mod 64) * 64 + of_char c2 mod 64, 3)
      else (RuneError, 1))"
| "decode3 b0 s = (RuneError, 1)"

fun decode4 :: "nat \<Rightarrow> string \<Rightarrow> nat \<times> nat" where
  "decode4 b0 (c1 # c2 # c3 # s) =
     (if accept b0 c1 \<and> cont c2 \<and> cont c3
      then ((b0 mod 8) * 262144 + (of_char c1 mod 64) * 4096 + (of_char c2 mod 64) * 64
              + of_char c3 mod 64, 4)
      else (RuneError, 1))"
| "decode4 b0 s = (RuneError, 1)"

fun DecodeRuneInString :: "string \<Rightarrow> nat \<times> nat" where
  "DecodeRuneInString [] = (RuneError, 0)"
| "DecodeRuneInString (c0 # s) =
    (let b0 = of_char c0 :: nat in
     if b0 < 0x80 then (b0, 1)
     else if b0 < 0xC2 \<or> 0xF4 < b0 then (RuneError, 1)
     else if b0 < 0xE0 then decode2 b0 s
     else if b0 < 0xF0 then decode3 b0 s
     else decode4 b0 s)"

fun decodeAll :: "string \<Rightarrow> (nat \<times> nat) list" where
  "decodeAll [] = []"
| "decodeAll (c # s) =
     DecodeRuneInString (c # s) # decodeAll (drop (snd (DecodeRuneInString (c # s)) - 1) s)"

definition runes :: "string \<Rightarrow> nat list" where
  "runes s = map fst (decodeAll s)"

definition validUTF8 :: "string \<Rightarrow> bool" where
  "validUTF8 s = list_all (\<lambda>d. d \<noteq> (RuneError, 1)) (decodeAll s)"

definition EncodeRune :: "nat \<Rightarrow> string" where
  "EncodeRune r =
     (if r < 0x80 then [char_of r]
      else if r < 0x800 then [char_of (0xC0 + r div 64), char_of (0x80 + r mod 64)]
      else if r < 0x10000 then
        [char_of (0xE0 + r div 4096), char_of (0x80 + r div 64 mod 64), char_of (0x80 + r mod 64)]
      else
        [char_of (0xF0 + r div 262144), char_of (0x80 + r div 4096 mod 64),
         char_of (0x80 + r div 64 mod 64), char_of (0x80 + r mod 64)])"




subsection \<open>The regular expression of checkIfChildren\<close>

text \<open>
  \<open>checkIfChildren\<close> compiles \<^verbatim>\<open>^Q(?:\/.*|)$\<close>, where \<open>Q\<close> is \<open>regexp.QuoteMeta(target)\<close>,
  an expression that matches the text of \<open>target\<close> literally. The compiled expression is
  the syntax tree below (constructors named after the operators of \<open>regexp/syntax\<close>);
  the two anchors make \<open>MatchString\<close> a match of the whole input, decided here by
  derivatives. The matcher reads runes, \<open>.\<close> matches any rune but newline, and the parser
  rejects a pattern that is not valid UTF-8, on which \<open>MustCompile\<close> panics.
\<close>

datatype regex =
    NoMatch
  | EmptyMatch
  | Literal nat
  | AnyCharNotNL
  | Concat regex regex
  | Alternate regex regex
  | Star regex

fun nullable :: "regex \<Rightarrow> bool" where
  "nullable NoMatch = False"
| "nullable EmptyMatch = True"
| "nullable (Literal r) = False"
| "nullable AnyCharNotNL = False"
| "nullable (Concat a b) = (nullable a \<and> nullable b)"
| "nullable (Alternate a b) = (nullable a \<or> nullable b)"
| "nullable (Star a) = True"

fun deriv :: "nat \<Rightarrow> regex \<Rightarrow> regex" where
  "deriv c NoMatch = NoMatch"
| "deriv c EmptyMatch = NoMatch"
| "deriv c (Literal r) = (if c = r then EmptyMatch else NoMatch)"
| "deriv c AnyCharNotNL = (if c = 0x0A then NoMatch else EmptyMatch)"
| "deriv c (Concat a b) =
     (if nullable a then Alternate (Concat (deriv c a) b) (deriv c b)
      else Concat (deriv c a) b)"
| "deriv c (Alternate a b) = Alternate (deriv c a) (deriv c b)"
| "deriv c (Star a) = Concat (deriv c a) (Star a)"

fun matches :: "regex \<Rightarrow> nat list \<Rightarrow> bool" where
  "matches re [] = nullable re"
| "matches re (c # w) = matches (deriv c re) w"

fun literalThen :: "nat list \<Rightarrow> regex \<Rightarrow> regex" where
  "literalThen [] re = re"
| "literalThen (r # rs) re = Concat (Literal r) (literalThen rs re)"

definition childPattern :: "string \<Rightarrow> regex" where
  "childPattern target =
     literalThen (runes target)
       (Alternate (Concat (Literal 0x2F) (Star AnyCharNotNL)) EmptyMatch)"

definition MustCompile_childPattern :: "string \<Rightarrow> panic + regex" where
  "MustCompile_childPattern target =
     (if validUTF8 target then Inr (childPattern target) else Inl RegexpCompile)"

definition MatchString :: "regex \<Rightarrow> string \<Rightarrow> bool" where
  "MatchString re s = matches re (runes s)"

definition checkIfChildren :: "string \<Rightarrow> string \<Rightarrow> panic + bool" where
  "checkIfChildren input target =
     (case MustCompile_childPattern target of
        Inl p \<Rightarrow> Inl p
      | Inr r \<Rightarrow> Inr (MatchString r input))"

subsection \<open>Package net/url\<close>

text \<open>
  \<open>url.Parse\<close>, restricted to the three fields the program reads (\<open>Scheme\<close>, \<open>Host\<close>,
  \<open>Path\<close>), with every way it can fail. User information, query and fragment are
  validated as the library does and then dropped. Bracketed IP literals and ports are read as
  in the Go releases up to 1.24.
\<close>

record URL =
  Scheme :: string
  Host :: string
  Path :: string

datatype encoding =
    encodePath
  | encodePathSegment
  | encodeHost
  | encodeZone
  | encodeUserPassword
  | encodeQueryComponent
  | encodeFragment

definition ishex :: "char \<Rightarrow> bool" where
  "ishex c = (isDigit c \<or> (0x61 \<le> byte c \<and> byte c \<le> 0x66) \<or> (0x41 \<le> byte c \<and> byte c \<le> 0x46))"

definition unhex :: "char \<Rightarrow> nat" where
  "unhex c =
     (if isDigit c then byte c - 0x30
      else if 0x61 \<le> byte c \<and> byte c \<le> 0x66 then byte c - 0x61 + 10
      else if 0x41 \<le> byte c \<and> byte c \<le> 0x46 then byte c - 0x41 + 10
      else 0)"

definition shouldEscapeHost :: "char \<Rightarrow> bool" where
  "shouldEscapeHost c =
     (\<not> (isLower c \<or> isUpper c \<or> isDigit c
         \<or> c \<in> set ''!$&()*+,;=:[]<>'' \<or> c = CHR 0x27 \<or> c = CHR 0x22
         \<or> c \<in> set ''-_.~''))"

fun unescape :: "string \<Rightarrow> encoding \<Rightarrow> error + string" where
  "unescape [] mode = Inr []"
| "unescape (c # s) mode =
     (if c = CHR ''%'' then
        (case s of
           h1 # h2 # rest \<Rightarrow>
             if \<not> ishex h1 \<or> \<not> ishex h2 then Inl (Err ''invalid URL escape'')
             else if mode = encodeHost \<and> unhex h1 < 8 \<and> [h1, h2] \<noteq> ''25''
               then Inl (Err ''invalid URL escape'')
             else if mode = encodeZone \<and> [h1, h2] \<noteq> ''25'' \<and> unhex h1 * 16 + unhex h2 \<noteq> 0x20
                     \<and> shouldEscapeHost (char_of (unhex h1 * 16 + unhex h2))
               then Inl (Err ''invalid URL escape'')
             else (case unescape rest mode of
                     Inl err \<Rightarrow> Inl err
                   | Inr t \<Rightarrow> Inr (char_of (unhex h1 * 16 + unhex h2) # t))
         | _ \<Rightarrow> Inl (Err ''invalid URL escape''))
      else if c = CHR ''+'' then
        (case unescape s mode of
           Inl err \<Rightarrow> Inl err
         | Inr t \<Rightarrow> Inr ((if mode = encodeQueryComponent then CHR '' '' else CHR ''+'') # t))
      else if (mode = encodeHost \<or> mode = encodeZone) \<and> byte c < 0x80 \<and> shouldEscapeHost c
        then Inl (Err ''invalid character in host name'')
      else (case unescape s mode of
              Inl err \<Rightarrow> Inl err
            | Inr t \<Rightarrow> Inr (c # t)))"

definition validOptionalPort :: "string \<Rightarrow> bool" where
  "validOptionalPort port =
     (case port of
        [] \<Rightarrow> True
      | c # ds \<Rightarrow> c = CHR '':'' \<and> list_all isDigit ds)"

definition parseHost :: "string \<Rightarrow> error + string" where
  "parseHost host =
     (if HasPrefix host ''['' then
        (if CHR '']'' \<notin> set host then Inl (Err ''missing ] in host'')
         else if \<not> validOptionalPort (afterLast CHR '']'' host)
           then Inl (Err ''invalid port after host'')
         else
           (case Index (beforeLast CHR '']'' host) ''%25'' of
              Some zone \<Rightarrow>
                (case unescape (take zone host) encodeHost of
                   Inl err \<Rightarrow> Inl err
                 | Inr host1 \<Rightarrow>
                   (case unescape (drop zone (beforeLast CHR '']'' host)) encodeZone of
                      Inl err \<Rightarrow> Inl err
                    | Inr host2 \<Rightarrow>
                      (case unescape (drop (length (beforeLast CHR '']'' host)) host) encodeHost of
                         Inl err \<Rightarrow> Inl err
                       | Inr host3 \<Rightarrow> Inr (host1 @ host2 @ host3))))
            | None \<Rightarrow> unescape host encodeHost))
      else if CHR '':'' \<in> set host \<and> \<not> validOptionalPort (CHR '':'' # afterLast CHR '':'' host)
        then Inl (Err ''invalid port after host'')
      else unescape host encodeHost)"

definition validUserinfo :: "string \<Rightarrow> bool" where
  "validUserinfo s =
     list_all (\<lambda>c. isUpper c \<or> isLower c \<or> isDigit c \<or> c \<in> set ''-._:~!$&()*+,;=%@'' \<or> c = CHR 0x27) s"

definition parseAuthority :: "string \<Rightarrow> error + string" where
  "parseAuthority authority =
     (if CHR ''@'' \<notin> set authority then parseHost authority
      else
        (case parseHost (afterLast CHR ''@'' authority) of
           Inl err \<Rightarrow> Inl err
         | Inr host \<Rightarrow>
            let userinfo = beforeLast CHR ''@'' authority in
            if \<not> validUserinfo userinfo then Inl (Err ''net/url: invalid userinfo'')
            else if CHR '':'' \<notin> set userinfo then
              (case unescape userinfo encodeUserPassword of
                 Inl err \<Rightarrow> Inl err
               | Inr username \<Rightarrow> Inr host)
            else
              (case unescape (before CHR '':'' userinfo) encodeUserPassword of
                 Inl err \<Rightarrow> Inl err
               | Inr username \<Rightarrow>
                 (case unescape (after CHR '':'' userinfo) encodeUserPassword of
                    Inl err \<Rightarrow> Inl err
                  | Inr password \<Rightarrow> Inr host))))"

fun getScheme_from :: "string \<Rightarrow> string \<Rightarrow> string \<Rightarrow> error + string \<times> string" where
  "getScheme_from rawURL seen [] = Inr ([], rawURL)"
| "getScheme_from rawURL seen (c # s) =
     (if isLower c \<or> isUpper c then getScheme_from rawURL (seen @ [c]) s
      else if isDigit c \<or> c = CHR ''+'' \<or> c = CHR ''-'' \<or> c = CHR ''.'' then
        (if seen = [] then Inr ([], rawURL) else getScheme_from rawURL (seen @ [c]) s)
      else if c = CHR '':'' then
        (if seen = [] then Inl (Err ''missing protocol scheme'') else Inr (seen, s))
      else Inr ([], rawURL))"

definition getScheme :: "string \<Rightarrow> error + string \<times> string" where
  "getScheme rawURL = getScheme_from rawURL [] rawURL"

definition stringContainsCTLByte :: "string \<Rightarrow> bool" where
  "stringContainsCTLByte s = list_ex (\<lambda>c. byte c < 0x20 \<or> byte c = 0x7F) s"

definition setPath :: "string \<Rightarrow> string \<Rightarrow> string \<Rightarrow> error + URL" where
  "setPath scheme host p =
     (case unescape p encodePath of
        Inl err \<Rightarrow> Inl err
      | Inr path \<Rightarrow> Inr \<lparr>Scheme = scheme, Host = host, Path = path\<rparr>)"

definition parse :: "string \<Rightarrow> error + URL" where
  "parse rawURL =
     (if stringContainsCTLByte rawURL then Inl (Err ''net/url: invalid control character in URL'')
      else if rawURL = ''*'' then Inr \<lparr>Scheme = [], Host = [], Path = ''*''\<rparr>
      else
        (case getScheme rawURL of
           Inl err \<Rightarrow> Inl err
         | Inr (scheme0, rest0) \<Rightarrow>
            let scheme = ToLower scheme0;
                rest = before CHR ''?'' rest0
            in
            if \<not> HasPrefix rest ''/'' \<and> scheme \<noteq> [] then
              Inr \<lparr>Scheme = scheme, Host = [], Path = []\<rparr>
            else if \<not> HasPrefix rest ''/'' \<and> CHR '':'' \<in> set (before CHR ''/'' rest) then
              Inl (Err ''first path segment in URL cannot contain colon'')
            else if (scheme \<noteq> [] \<or> \<not> HasPrefix rest ''///'') \<and> HasPrefix rest ''//'' then
              (case parseAuthority (before CHR ''/'' (drop 2 rest)) of
                 Inl err \<Rightarrow> Inl err
               | Inr host \<Rightarrow> setPath scheme host (dropWhile (\<lambda>c. c \<noteq> CHR ''/'') (drop 2 rest)))
            else setPath scheme [] rest))"

definition url_Parse :: "string \<Rightarrow> error + URL" where
  "url_Parse rawURL =
     (case parse (before CHR ''#'' rawURL) of
        Inl err \<Rightarrow> Inl err
      | Inr url \<Rightarrow>
         if after CHR ''#'' rawURL = [] then Inr url
         else (case unescape (after CHR ''#'' rawURL) encodeFragment of
                 Inl err \<Rightarrow> Inl err
               | Inr frag \<Rightarrow> Inr url))"


subsection \<open>Packages path and path/filepath\<close>

text \<open>
  \<open>path.Base\<close> and, for Unix paths, \<open>filepath.Join\<close> with the lexical \<open>filepath.Clean\<close>
  it ends with: empty and \<open>.\<close> elements are dropped, \<open>..\<close> removes the element before it
  (at the root it is dropped, at the front of a relative path it is kept).
\<close>

definition path_Base :: "string \<Rightarrow> string" where
  "path_Base p =
     (if p = [] then ''.''
      else
        let stripped = rev (dropWhile (\<lambda>c. c = CHR ''/'') (rev p));
            last_elem = afterLast CHR ''/'' stripped
        in if last_elem = [] then ''/'' else last_elem)"

fun elements :: "string \<Rightarrow> string list" where
  "elements [] = [[]]"
| "elements (c # s) =
     (if c = CHR ''/'' then [] # elements s
      else (case elements s of
              e # es \<Rightarrow> (c # e) # es
            | [] \<Rightarrow> [[c]]))"

fun cleanElements :: "bool \<Rightarrow> string list \<Rightarrow> string list \<Rightarrow> string list" where
  "cleanElements rooted out [] = out"
| "cleanElements rooted out (e # es) =
     (if e = [] \<or> e = ''.'' then cleanElements rooted out es
      else if e = ''..'' then
        (if out \<noteq> [] \<and> last out \<noteq> ''..'' then cleanElements rooted (butlast out) es
         else if \<not> rooted then cleanElements rooted (out @ [''..'']) es
         else cleanElements rooted out es)
      else cleanElements rooted (out @ [e]) es)"

fun joinElements :: "string list \<Rightarrow> string" where
  "joinElements [] = []"
| "joinElements [e] = e"
| "joinElements (e # es) = e @ ''/'' @ joinElements es"

definition Clean :: "string \<Rightarrow> string" where
  "Clean p =
     (if p = [] then ''.''
      else
        let rooted = HasPrefix p ''/'';
            out = cleanElements rooted [] (elements p)
        in if rooted then ''/'' @ joinElements out
           else if out = [] then ''.''
           else joinElements out)"

definition filepath_Join :: "string \<Rightarrow> string \<Rightarrow> string" where
  "filepath_Join a b =
     (if a \<noteq> [] then Clean (a @ ''/'' @ b)
      else if b \<noteq> [] then Clean b
      else [])"

subsection \<open>Package html: the parsed document\<close>

text \<open>
  A \<open>*html.Node\<close> is a tree; the \<open>FirstChild\<close>/\<open>NextSibling\<close> chain of a node is the list
  of its children. A nil pointer is \<open>None\<close>.
\<close>

datatype NodeType =
  ErrorNode | TextNode | DocumentNode | ElementNode | CommentNode | DoctypeNode

record Attribute =
  Namespace :: string
  Key :: string
  Val :: string

datatype Node = Node (Type: NodeType) (Data: string) (Attr: "Attribute list") (Children: "Node list")

subsection \<open>The world and the state of the program\<close>

text \<open>
  \<open>http.Get\<close> either fails with a transport error or yields a response with a status
  code and a body; reading the body (\<open>io.ReadAll\<close>) may fail in turn.
\<close>

record response =
  StatusCode :: int
  Body :: "error + string"

type_synonym network = "string \<Rightarrow> error + response"

text \<open>
  The world: the \<open>dir\<close> flag, the network, \<open>html.Parse\<close>, and the ways the file system can
  refuse \<open>os.MkdirAll\<close>, \<open>os.Create\<close> and \<open>file.Write\<close> (a failed write reports how many
  bytes it wrote).
\<close>

record world =
  dir :: string
  httpGet :: network
  htmlParse :: "string \<Rightarrow> error + Node"
  mkdirAll :: "string \<Rightarrow> error option"
  createFile :: "string \<Rightarrow> error option"
  writeFile :: "string \<Rightarrow> string \<Rightarrow> (nat \<times> error) option"

text \<open>What the program does to the outside, in order.\<close>

datatype event =
    Println "string list"
  | Printf string error
  | NetGet string
  | ReadFile string
  | MkdirAll string
  | CreateFile string
  | WriteFile string string

text \<open>
  The state: the global slice \<open>URLs\<close>, the counter of the wait group \<open>wg\<close>, the regular
  files of the file system by path, and the events so far.
\<close>

record state =
  URLs :: "string list"
  wg :: int
  files :: "string \<rightharpoonup> string"
  events :: "event list"

definition emit :: "state \<Rightarrow> event list \<Rightarrow> state" where
  "emit st evs = st\<lparr>events := events st @ evs\<rparr>"

subsection \<open>download, checkForFile, save, parseHTML\<close>

definition StatusOK :: int where
  "StatusOK = 200"

definition download :: "network \<Rightarrow> string \<Rightarrow> error + string" where
  "download get url =
     (case get url of
        Inl err \<Rightarrow> Inl err
      | Inr resp \<Rightarrow>
          if StatusCode resp \<noteq> StatusOK then Inl (Err ''invalid status code'')
          else (case Body resp of
                  Inl err \<Rightarrow> Inl err
                | Inr data \<Rightarrow> Inr data))"

text \<open>\<open>checkForFile\<close> returns nil (\<open>None\<close>) when the file cannot be read, else its bytes.\<close>

definition checkForFile :: "state \<Rightarrow> string \<Rightarrow> string \<Rightarrow> string option \<times> state" where
  "checkForFile st filePath fileName =
     (case files st (filePath @ ''/'' @ fileName) of
        None \<Rightarrow>
          (None, emit st [ReadFile (filePath @ ''/'' @ fileName),
                          Println [filePath, ''does not exist. downloading and saving...'']])
      | Some data \<Rightarrow>
          (Some data, emit st [ReadFile (filePath @ ''/'' @ fileName),
                               Println [filePath, ''already exists'']]))"

definition save :: "world \<Rightarrow> state \<Rightarrow> string \<Rightarrow> string \<Rightarrow> string \<Rightarrow> error option \<times> state" where
  "save E st filePath fileName data =
     (case mkdirAll E filePath of
        Some err \<Rightarrow> (Some err, emit st [MkdirAll filePath])
      | None \<Rightarrow>
         (case createFile E (filePath @ ''/'' @ fileName) of
            Some err \<Rightarrow>
              (Some err, emit st [MkdirAll filePath, CreateFile (filePath @ ''/'' @ fileName)])
          | None \<Rightarrow>
             (case writeFile E (filePath @ ''/'' @ fileName) data of
                Some (n, err) \<Rightarrow>
                  (Some err,
                   emit (st\<lparr>files := (files st)(filePath @ ''/'' @ fileName \<mapsto> take n data)\<rparr>)
                     [MkdirAll filePath, CreateFile (filePath @ ''/'' @ fileName),
                      WriteFile (filePath @ ''/'' @ fileName) (take n data)])
              | None \<Rightarrow>
                  (None,
                   emit (st\<lparr>files := (files st)(filePath @ ''/'' @ fileName \<mapsto> data)\<rparr>)
                     [MkdirAll filePath, CreateFile (filePath @ ''/'' @ fileName),
                      WriteFile (filePath @ ''/'' @ fileName) data]))))"

definition parseHTML :: "world \<Rightarrow> string \<Rightarrow> Node option \<times> error option" where
  "parseHTML E data =
     (case htmlParse E data of
        Inl err \<Rightarrow> (None, Some err)
      | Inr htmlDoc \<Rightarrow> (Some htmlDoc, None))"

subsection \<open>extractUrls\<close>

text \<open>
  The body of the loop over the attributes of an \<open><a></a>\<close> element, for an attribute whose
  key is \<open>href\<close>. \<open>continue\<close> goes on with the next attribute, \<open>break\<close> leaves the loop.
  The two inner loops of the source (over \<open>invalidValues\<close>, and over \<open>urls\<close> under the
  comment "avoid duplicates") consist of a \<open>continue\<close> that belongs to the inner loop
  itself: they change nothing and decide nothing, and so have no counterpart here.
\<close>

datatype flow = Break | Continue | Proceed string

text \<open>Lines 233 to 245: an absolute link must be of the same host; its path is kept.\<close>

definition sameDomain :: "string \<Rightarrow> string \<Rightarrow> flow" where
  "sameDomain domain newUrl =
     (if HasPrefix newUrl ''http'' then
        (case url_Parse newUrl of
           Inl err \<Rightarrow> Break
         | Inr parsedNewURL \<Rightarrow>
             if domain \<noteq> Host parsedNewURL then Continue
             else Proceed (Path parsedNewURL))
      else Proceed newUrl)"

text \<open>Lines 247 to 255: a link from the root is put behind the host and its path is kept.\<close>

definition relativePath :: "string \<Rightarrow> string \<Rightarrow> flow" where
  "relativePath domain newUrl =
     (if HasPrefix newUrl ''/'' then
        (case url_Parse (domain @ newUrl) of
           Inl err \<Rightarrow> Break
         | Inr parsedNewURL \<Rightarrow> Proceed (Path parsedNewURL))
      else Proceed newUrl)"

text \<open>
  The whole body: the result is the new value of \<open>urls\<close>, with \<open>True\<close> when the loop goes
  on and \<open>False\<close> when it was left by \<open>break\<close>.
\<close>

definition hrefBody ::
  "string \<Rightarrow> string \<Rightarrow> string \<Rightarrow> string \<Rightarrow> string list \<Rightarrow> panic + bool \<times> string list" where
  "hrefBody targetScheme targetURL domain v urls =
     (if HasPrefix v ''#'' then Inr (True, urls)
      else
        (case sameDomain domain v of
           Break \<Rightarrow> Inr (False, urls)
         | Continue \<Rightarrow> Inr (True, urls)
         | Proceed newUrl1 \<Rightarrow>
            (case relativePath domain newUrl1 of
               Break \<Rightarrow> Inr (False, urls)
             | Continue \<Rightarrow> Inr (True, urls)
             | Proceed newUrl2 \<Rightarrow>
                (case checkIfChildren newUrl2 targetURL of
                   Inl p \<Rightarrow> Inl p
                 | Inr False \<Rightarrow> Inr (True, urls)
                 | Inr True \<Rightarrow>
                     if TrimSuffix newUrl2 ''/'' \<noteq> targetURL
                     then Inr (True, urls @ [targetScheme @ ''://'' @ TrimSuffix newUrl2 ''/''])
                     else Inr (True, urls)))))"

fun attrLoop ::
  "string \<Rightarrow> string \<Rightarrow> string \<Rightarrow> Attribute list \<Rightarrow> string list \<Rightarrow> panic + string list" where
  "attrLoop targetScheme targetURL domain [] urls = Inr urls"
| "attrLoop targetScheme targetURL domain (a # as) urls =
     (if Key a = ''href'' then
        (case hrefBody targetScheme targetURL domain (Val a) urls of
           Inl p \<Rightarrow> Inl p
         | Inr (True, urls1) \<Rightarrow> attrLoop targetScheme targetURL domain as urls1
         | Inr (False, urls1) \<Rightarrow> Inr urls1)
      else attrLoop targetScheme targetURL domain as urls)"

text \<open>The recursive closure \<open>f\<close> of \<open>extractUrls\<close>, and its loop over the children.\<close>

fun f :: "string \<Rightarrow> string \<Rightarrow> string \<Rightarrow> Node \<Rightarrow> string list \<Rightarrow> panic + string list"
  and childLoop :: "string \<Rightarrow> string \<Rightarrow> string \<Rightarrow> Node list \<Rightarrow> string list \<Rightarrow> panic + string list"
where
  "f targetScheme targetURL domain (Node ty d attrs cs) urls =
     (case (if ty = ElementNode \<and> d = ''a''
            then attrLoop targetScheme targetURL domain attrs urls
            else Inr urls) of
        Inl p \<Rightarrow> Inl p
      | Inr urls1 \<Rightarrow> childLoop targetScheme targetURL domain cs urls1)"
| "childLoop targetScheme targetURL domain [] urls = Inr urls"
| "childLoop targetScheme targetURL domain (c # cs) urls =
     (case f targetScheme targetURL domain c urls of
        Inl p \<Rightarrow> Inl p
      | Inr urls1 \<Rightarrow> childLoop targetScheme targetURL domain cs urls1)"

definition extractUrls :: "Node option \<Rightarrow> URL \<Rightarrow> panic + string list \<times> error option" where
  "extractUrls htlmDoc parsedURL =
     (case htlmDoc of
        None \<Rightarrow> Inl NilDereference
      | Some n \<Rightarrow>
         (case f (Scheme parsedURL) (Host parsedURL @ Path parsedURL) (Host parsedURL) n [] of
            Inl p \<Rightarrow> Inl p
          | Inr urls \<Rightarrow> Inr (urls, None)))"

subsection \<open>process\<close>

text \<open>
  The result of a call: it panics, or it returns its error result together with the
  goroutines it started (the arguments of the \<open>go\<close> statements, in order).
\<close>

datatype outcome =
    Panicked panic state
  | Returned "error option" state "string list"

text \<open>The key \<open>fmt.Sprintf("%v://%v%v", Scheme, Host, Path)\<close>.\<close>

definition targetKey :: "URL \<Rightarrow> string" where
  "targetKey parsedURL = Scheme parsedURL @ ''://'' @ Host parsedURL @ Path parsedURL"

text \<open>The loop over \<open>URLs\<close> that sets \<open>ok\<close>.\<close>

definition seen :: "string list \<Rightarrow> string \<Rightarrow> bool" where
  "seen urls target = foldl (\<lambda>ok u. if target = u then True else ok) False urls"

text \<open>Lines 99 to 114: the page from the mirror, or else from the network and into the mirror.\<close>

definition obtainContent :: "world \<Rightarrow> state \<Rightarrow> string \<Rightarrow> string \<Rightarrow> string \<Rightarrow> string \<times> state" where
  "obtainContent E st target fp fileName =
     (case checkForFile st fp (fileName @ ''.html'') of
        (Some savedContent, st1) \<Rightarrow> (savedContent, st1)
      | (None, st1) \<Rightarrow>
         let st2 = emit st1 [Println [''downloading'', target], NetGet target];
             (content, st3) =
               (case download (httpGet E) target of
                  Inl err \<Rightarrow> ([], emit st2 [Printf ''error downloading the target: %v'' err])
                | Inr data \<Rightarrow> (data, st2))
         in (case save E st3 fp (fileName @ ''.html'') content of
               (Some err, st4) \<Rightarrow> (content, emit st4 [Printf ''error saving the target: %v'' err])
             | (None, st4) \<Rightarrow> (content, st4)))"

definition process :: "world \<Rightarrow> state \<Rightarrow> string \<Rightarrow> outcome" where
  "process E st target0 =
     (case url_Parse (TrimSuffix target0 ''/'') of
        Inl err \<Rightarrow>
          Panicked NilDereference (emit st [Printf ''error parsing the target: %v'' err])
      | Inr parsedURL \<Rightarrow>
         if seen (URLs st) (targetKey parsedURL) then Returned None st []
         else
           let st1 = st\<lparr>URLs := URLs st @ [targetKey parsedURL]\<rparr>;
               fp = filepath_Join (dir E) (Path parsedURL);
               fileName = (if path_Base (Path parsedURL) = ''.'' then ''index''
                           else path_Base (Path parsedURL));
               (content, st2) = obtainContent E st1 (targetKey parsedURL) fp fileName;
               (htmlContent, err) = parseHTML E content;
               st3 = (case err of
                        Some e \<Rightarrow> emit st2 [Printf ''error parsing html content: %v'' e]
                      | None \<Rightarrow> st2);
               st4 = emit st3 [Println [''extracting urls from '', Host parsedURL @ Path parsedURL]]
           in (case extractUrls htmlContent parsedURL of
                 Inl p \<Rightarrow> Panicked p st4
               | Inr (urls, err) \<Rightarrow>
                   Returned None (st4\<lparr>wg := wg st4 + int (length urls)\<rparr>) urls))"

text \<open>
  The normalization \<open>process\<close> applies to its argument before anything else: trim one
  trailing slash, parse, print scheme, host and path. A string that does not parse makes
  \<open>process\<close> dereference a nil pointer.
\<close>

definition normalize :: "string \<Rightarrow> panic + string" where
  "normalize u =
     (case url_Parse (TrimSuffix u ''/'') of
        Inl err \<Rightarrow> Inl NilDereference
      | Inr parsedURL \<Rightarrow> Inr (targetKey parsedURL))"

definition normalizeTwice :: "string \<Rightarrow> panic + string" where
  "normalizeTwice u = (case normalize u of Inl p \<Rightarrow> Inl p | Inr n \<Rightarrow> normalize n)"

text \<open>The state a call ends in, and the requests it made to the network.\<close>

definition stateOf :: "outcome \<Rightarrow> state" where
  "stateOf out = (case out of Panicked p st \<Rightarrow> st | Returned err st started \<Rightarrow> st)"

definition fetches :: "state \<Rightarrow> string list" where
  "fetches st = concat (map (\<lambda>e. case e of NetGet u \<Rightarrow> [u] | _ \<Rightarrow> []) (events st))"

subsection \<open>Plain URLs\<close>











subsection \<open>The mirror, and a crawl as a sequence of calls\<close>

text \<open>The file \<open>process\<close> reads and writes for a parsed URL.\<close>

definition location :: "world \<Rightarrow> URL \<Rightarrow> string" where
  "location E parsedURL =
     filepath_Join (dir E) (Path parsedURL) @ ''/'' @
     (if path_Base (Path parsedURL) = ''.'' then ''index'' else path_Base (Path parsedURL)) @
     ''.html''"

text \<open>
  A crawl: \<open>process\<close> is called on the seed, and every call that returns adds the
  goroutines it started to the calls still to be made, which are made in any order. (The calls
  are taken one at a time here; what two calls can do to \<open>URLs\<close> when they overlap is the
  subject of the next subsection.)
\<close>

inductive crawl :: "world \<Rightarrow> state \<times> string list \<Rightarrow> state \<times> string list \<Rightarrow> bool" for E where
  crawl_start: "crawl E c c"
| crawl_call:
    "crawl E c (st, pending) \<Longrightarrow> i < length pending \<Longrightarrow>
     process E st (pending ! i) = Returned err st' started \<Longrightarrow>
     crawl E c (st', take i pending @ drop (Suc i) pending @ started)"

text \<open>
  The URLs a crawl from \<open>seed\<close> can be called on when every page comes from the mirror
  \<open>fs\<close>: the seed, and every link extracted from a stored page of such a URL. The mirror is
  populated when each of them has its page stored.
\<close>

inductive_set mirrored :: "world \<Rightarrow> (string \<rightharpoonup> string) \<Rightarrow> string \<Rightarrow> string set"
  for E fs seed where
  mirrored_seed: "seed \<in> mirrored E fs seed"
| mirrored_link:
    "t \<in> mirrored E fs seed \<Longrightarrow> url_Parse (TrimSuffix t ''/'') = Inr parsedURL \<Longrightarrow>
     fs (location E parsedURL) = Some content \<Longrightarrow> htmlParse E content = Inr doc \<Longrightarrow>
     extractUrls (Some doc) parsedURL = Inr (urls, err) \<Longrightarrow> u \<in> set urls \<Longrightarrow>
     u \<in> mirrored E fs seed"

definition populated :: "world \<Rightarrow> (string \<rightharpoonup> string) \<Rightarrow> string \<Rightarrow> bool" where
  "populated E fs seed =
     (\<forall>t parsedURL. t \<in> mirrored E fs seed \<longrightarrow> url_Parse (TrimSuffix t ''/'') = Inr parsedURL
        \<longrightarrow> fs (location E parsedURL) \<noteq> None)"

subsection \<open>Two calls of process at once\<close>

text \<open>
  Lines 77 to 88 of \<open>process\<close>, for goroutines that run at the same time. A goroutine first
  reads \<open>URLs\<close> in the \<open>range\<close> loop, which takes no lock, and so learns \<open>ok\<close>; if \<open>ok\<close> is
  false it then takes the mutex, appends its key and goes on to the page. Other goroutines
  can run between the two steps.
\<close>

datatype goroutine =
    AtLoop string
  | AtAppend string
  | AtPage string
  | Done string

inductive step :: "string list \<times> goroutine list \<Rightarrow> string list \<times> goroutine list \<Rightarrow> bool" where
  loop_absent:
    "i < length gs \<Longrightarrow> gs ! i = AtLoop k \<Longrightarrow> \<not> seen urls k \<Longrightarrow>
     step (urls, gs) (urls, gs[i := AtAppend k])"
| loop_present:
    "i < length gs \<Longrightarrow> gs ! i = AtLoop k \<Longrightarrow> seen urls k \<Longrightarrow>
     step (urls, gs) (urls, gs[i := Done k])"
| append_key:
    "i < length gs \<Longrightarrow> gs ! i = AtAppend k \<Longrightarrow>
     step (urls, gs) (urls @ [k], gs[i := AtPage k])"

subsection \<open>The anchors of a document\<close>

text \<open>
  For every \<open><a></a>\<close> element of a document, in document order, the values of its \<open>href\<close>
  attributes; and the loops of \<open>extractUrls\<close> as they run over these values.
\<close>

fun hrefs :: "Node \<Rightarrow> string list list"
  and hrefsOfList :: "Node list \<Rightarrow> string list list"
where
  "hrefs (Node ty d attrs cs) =
     (if ty = ElementNode \<and> d = ''a''
      then [map Val (filter (\<lambda>a. Key a = ''href'') attrs)]
      else []) @ hrefsOfList cs"
| "hrefsOfList [] = []"
| "hrefsOfList (c # cs) = hrefs c @ hrefsOfList cs"

fun hrefLoop ::
  "string \<Rightarrow> string \<Rightarrow> string \<Rightarrow> string list \<Rightarrow> string list \<Rightarrow> panic + string list" where
  "hrefLoop targetScheme targetURL domain [] urls = Inr urls"
| "hrefLoop targetScheme targetURL domain (v # vs) urls =
     (case hrefBody targetScheme targetURL domain v urls of
        Inl p \<Rightarrow> Inl p
      | Inr (True, urls1) \<Rightarrow> hrefLoop targetScheme targetURL domain vs urls1
      | Inr (False, urls1) \<Rightarrow> Inr urls1)"

fun anchorLoop ::
  "string \<Rightarrow> string \<Rightarrow> string \<Rightarrow> string list list \<Rightarrow> string list \<Rightarrow> panic + string list" where
  "anchorLoop targetScheme targetURL domain [] urls = Inr urls"
| "anchorLoop targetScheme targetURL domain (vs # vss) urls =
     (case hrefLoop targetScheme targetURL domain vs urls of
        Inl p \<Rightarrow> Inl p
      | Inr urls1 \<Rightarrow> anchorLoop targetScheme targetURL domain vss urls1)"

subsection \<open>Documents, worlds and states to run the program on\<close>

definition anchor :: "string \<Rightarrow> Node" where
  "anchor h =
     Node ElementNode ''a'' [\<lparr>Namespace = [], Key = ''href'', Val = h\<rparr>] [Node TextNode ''link'' [] []]"

definition page :: "string list \<Rightarrow> Node" where
  "page hs =
     Node DocumentNode [] []
       [Node ElementNode ''html'' []
          [Node ElementNode ''head'' [] [],
           Node ElementNode ''body'' [] (map anchor hs)]]"

definition features :: URL where
  "features = \<lparr>Scheme = ''https'', Host = ''github.com'', Path = ''/features''\<rparr>"

text \<open>A server that answers every request with 201 Created and a readable body.\<close>

definition createdServer :: network where
  "createdServer url = Inr \<lparr>StatusCode = 201, Body = Inr ''created''\<rparr>"

text \<open>A server that answers every request with 200 OK and the same page.\<close>

definition okServer :: network where
  "okServer url = Inr \<lparr>StatusCode = 200, Body = Inr ''one link''\<rparr>"

text \<open>
  A world whose every page reads as a document with the one link \<open>/features/a\<close>, and whose
  file system refuses nothing.
\<close>

definition github :: world where
  "github =
     \<lparr>dir = ''./data'', httpGet = okServer,
      htmlParse = (\<lambda>data. Inr (page [''/features/a''])),
      mkdirAll = (\<lambda>p. None), createFile = (\<lambda>p. None), writeFile = (\<lambda>p data. None)\<rparr>"

text \<open>A world with no network and a file system that refuses every directory.\<close>

definition offline :: world where
  "offline =
     \<lparr>dir = ''./data'', httpGet = (\<lambda>url. Inl (Err ''no route to host'')),
      htmlParse = (\<lambda>data. Inr (page [])),
      mkdirAll = (\<lambda>p. Some (Err ''permission denied'')),
      createFile = (\<lambda>p. None), writeFile = (\<lambda>p data. None)\<rparr>"

definition initial :: state where
  "initial = \<lparr>URLs = [], wg = 0, files = Map.empty, events = []\<rparr>"

text \<open>A mirror that holds the two pages of that site.\<close>

definition mirror :: "string \<rightharpoonup> string" where
  "mirror =
     [''data/features/features.html'' \<mapsto> ''one link'',
      ''data/features/a/a.html'' \<mapsto> ''one link'']"

text \<open>The states of a crawl of that site from the seed \<open>https://github.com/features\<close>.\<close>

definition mirrorState :: state where
  "mirrorState = \<lparr>URLs = [], wg = 0, files = mirror, events = []\<rparr>"

definition afterSeed :: state where
  "afterSeed =
     \<lparr>URLs = [''https://github.com/features''], wg = 1, files = mirror,
      events = [ReadFile ''data/features/features.html'',
                Println [''data/features'', ''already exists''],
                Println [''extracting urls from '', ''github.com/features'']]\<rparr>"

definition afterBoth :: state where
  "afterBoth =
     \<lparr>URLs = [''https://github.com/features'', ''https://github.com/features/a''], wg = 1,
      files = mirror,
      events = [ReadFile ''data/features/features.html'',
                Println [''data/features'', ''already exists''],
                Println [''extracting urls from '', ''github.com/features''],
                ReadFile ''data/features/a/a.html'',
                Println [''data/features/a'', ''already exists''],
                Println [''extracting urls from '', ''github.com/features/a'']]\<rparr>"

section \<open>Properties\<close>

subsection \<open>UTF-8: decoding, and encoding back\<close>

lemma decode2_size: "snd (decode2 b s) = 1 \<or> snd (decode2 b s) = 2"
  by (cases "(b, s)" rule: decode2.cases) auto

lemma decode3_size: "snd (decode3 b s) = 1 \<or> snd (decode3 b s) = 3"
  by (cases "(b, s)" rule: decode3.cases) auto

lemma decode4_size: "snd (decode4 b s) = 1 \<or> snd (decode4 b s) = 4"
  by (cases "(b, s)" rule: decode4.cases) auto

lemma DecodeRune_size:
  "1 \<le> snd (DecodeRuneInString (c # s)) \<and> snd (DecodeRuneInString (c # s)) \<le> 4"
  using decode2_size [of "of_char c" s] decode3_size [of "of_char c" s]
    decode4_size [of "of_char c" s]
  by (auto simp: Let_def)

declare DecodeRuneInString.simps(2) [simp del]

lemma pack1:
  fixes x y :: nat
  assumes "y < 64"
  shows "(x * 64 + y) div 64 = x" "(x * 64 + y) mod 64 = y"
  using assms by simp_all

lemma pack2:
  fixes x y z :: nat
  assumes "y < 64" "z < 64"
  shows "(x * 4096 + y * 64 + z) div 4096 = x" "(x * 4096 + y * 64 + z) div 64 mod 64 = y"
    "(x * 4096 + y * 64 + z) mod 64 = z"
proof -
  have e: "x * 4096 + y * 64 + z = (x * 64 + y) * 64 + z" by simp
  have d: "(x * 4096 + y * 64 + z) div 64 = x * 64 + y"
    unfolding e using assms(2) by (rule pack1(1))
  show "(x * 4096 + y * 64 + z) mod 64 = z"
    unfolding e using assms(2) by (rule pack1(2))
  show "(x * 4096 + y * 64 + z) div 64 mod 64 = y"
    unfolding d using assms(1) by (rule pack1(2))
  have "(x * 4096 + y * 64 + z) div 4096 = (x * 4096 + y * 64 + z) div 64 div 64"
    by (simp add: div_mult2_eq)
  also have "\<dots> = x" unfolding d using assms(1) by (rule pack1(1))
  finally show "(x * 4096 + y * 64 + z) div 4096 = x" .
qed

lemma pack3:
  fixes x y z w :: nat
  assumes "y < 64" "z < 64" "w < 64"
  shows "(x * 262144 + y * 4096 + z * 64 + w) div 262144 = x"
    "(x * 262144 + y * 4096 + z * 64 + w) div 4096 mod 64 = y"
    "(x * 262144 + y * 4096 + z * 64 + w) div 64 mod 64 = z"
    "(x * 262144 + y * 4096 + z * 64 + w) mod 64 = w"
proof -
  let ?r = "x * 262144 + y * 4096 + z * 64 + w"
  have e: "?r = ((x * 64 + y) * 4096 + z * 64 + w)" by simp
  show "?r mod 64 = w" unfolding e using assms(2,3) by (rule pack2(3))
  show "?r div 64 mod 64 = z" unfolding e using assms(2,3) by (rule pack2(2))
  have d: "?r div 4096 = x * 64 + y" unfolding e using assms(2,3) by (rule pack2(1))
  show "?r div 4096 mod 64 = y" unfolding d using assms(1) by (rule pack1(2))
  have "?r div 262144 = ?r div 4096 div 64" by (simp add: div_mult2_eq)
  also have "\<dots> = x" unfolding d using assms(1) by (rule pack1(1))
  finally show "?r div 262144 = x" .
qed

lemma lead_mod:
  fixes x :: nat
  shows "x < 32 \<Longrightarrow> (192 + x) mod 32 = x" "x < 16 \<Longrightarrow> (224 + x) mod 16 = x"
    "x < 8 \<Longrightarrow> (240 + x) mod 8 = x" "x < 64 \<Longrightarrow> (128 + x) mod 64 = x"
  using mod_mult_self4 [of 32 6 x] mod_mult_self4 [of 16 14 x] mod_mult_self4 [of 8 30 x]
    mod_mult_self4 [of 64 2 x]
  by simp_all

lemma enc2:
  fixes b0 b1 :: nat
  assumes "0xC2 \<le> b0" "b0 < 0xE0" "accept b0 c1"
  defines "r \<equiv> (b0 mod 32) * 64 + of_char c1 mod 64"
  shows "0x80 \<le> r" "r < 0x800" "0xC0 + r div 64 = b0" "0x80 + r mod 64 = of_char c1"
proof -
  have b1: "128 \<le> (of_char c1 :: nat)" "(of_char c1 :: nat) < 192"
    using assms(2,3) by (auto simp: accept_def acceptLo_def acceptHi_def split: if_splits)
  obtain x where x: "b0 = 192 + x" using assms(1) le_iff_add [of 192 b0] by auto
  obtain y :: nat where y: "(of_char c1 :: nat) = 128 + y" using b1(1) le_iff_add [of 128 "of_char c1"] by auto
  have xy: "2 \<le> x" "x < 32" "y < 64" using assms(1,2) b1 x y by simp_all
  have r: "r = x * 64 + y" unfolding r_def x y using xy by (simp only: lead_mod)
  show "0x80 \<le> r" "r < 0x800" using xy unfolding r by simp_all
  show "0xC0 + r div 64 = b0" unfolding r x using xy(3) by (simp only: pack1)
  show "0x80 + r mod 64 = of_char c1" unfolding r y using xy(3) by (simp only: pack1)
qed

lemma enc3:
  fixes b0 :: nat
  assumes "0xE0 \<le> b0" "b0 < 0xF0" "accept b0 c1" "cont c2"
  defines "r \<equiv> (b0 mod 16) * 4096 + (of_char c1 mod 64) * 64 + of_char c2 mod 64"
  shows "0x800 \<le> r" "r < 0x10000"
    "0xE0 + r div 4096 = b0" "0x80 + r div 64 mod 64 = of_char c1" "0x80 + r mod 64 = of_char c2"
proof -
  have b1: "128 \<le> (of_char c1 :: nat)" "(of_char c1 :: nat) < 192"
    using assms(3) by (auto simp: accept_def acceptLo_def acceptHi_def split: if_splits)
  have b2: "128 \<le> (of_char c2 :: nat)" "(of_char c2 :: nat) < 192"
    using assms(4) by (auto simp: cont_def)
  obtain x where x: "b0 = 224 + x" using assms(1) le_iff_add [of 224 b0] by auto
  obtain y :: nat where y: "(of_char c1 :: nat) = 128 + y" using b1(1) le_iff_add [of 128 "of_char c1"] by auto
  obtain z :: nat where z: "(of_char c2 :: nat) = 128 + z" using b2(1) le_iff_add [of 128 "of_char c2"] by auto
  have xy: "x < 16" "y < 64" "z < 64" using assms(2) b1 b2 x y z by simp_all
  have lo: "x = 0 \<Longrightarrow> 32 \<le> y" using assms(3) x y by (simp add: accept_def acceptLo_def)
  have r: "r = x * 4096 + y * 64 + z" unfolding r_def x y z using xy by (simp only: lead_mod)
  show "0x800 \<le> r" using xy lo unfolding r by (cases "x = 0") simp_all
  show "r < 0x10000" using xy unfolding r by simp
  show "0xE0 + r div 4096 = b0" unfolding r x using xy by (simp only: pack2)
  show "0x80 + r div 64 mod 64 = of_char c1" unfolding r y using xy by (simp only: pack2)
  show "0x80 + r mod 64 = of_char c2" unfolding r z using xy by (simp only: pack2)
qed

lemma enc4:
  fixes b0 :: nat
  assumes "0xF0 \<le> b0" "b0 \<le> 0xF4" "accept b0 c1" "cont c2" "cont c3"
  defines "r \<equiv> (b0 mod 8) * 262144 + (of_char c1 mod 64) * 4096 + (of_char c2 mod 64) * 64
                  + of_char c3 mod 64"
  shows "0x10000 \<le> r"
    "0xF0 + r div 262144 = b0" "0x80 + r div 4096 mod 64 = of_char c1"
    "0x80 + r div 64 mod 64 = of_char c2" "0x80 + r mod 64 = of_char c3"
proof -
  have b1: "128 \<le> (of_char c1 :: nat)" "(of_char c1 :: nat) < 192"
    using assms(3) by (auto simp: accept_def acceptLo_def acceptHi_def split: if_splits)
  have b2: "128 \<le> (of_char c2 :: nat)" "(of_char c2 :: nat) < 192"
    using assms(4) by (auto simp: cont_def)
  have b3: "128 \<le> (of_char c3 :: nat)" "(of_char c3 :: nat) < 192"
    using assms(5) by (auto simp: cont_def)
  obtain x where x: "b0 = 240 + x" using assms(1) le_iff_add [of 240 b0] by auto
  obtain y :: nat where y: "(of_char c1 :: nat) = 128 + y" using b1(1) le_iff_add [of 128 "of_char c1"] by auto
  obtain z :: nat where z: "(of_char c2 :: nat) = 128 + z" using b2(1) le_iff_add [of 128 "of_char c2"] by auto
  obtain w :: nat where w: "(of_char c3 :: nat) = 128 + w" using b3(1) le_iff_add [of 128 "of_char c3"] by auto
  have xy: "x < 8" "y < 64" "z < 64" "w < 64" using assms(2) b1 b2 b3 x y z w by simp_all
  have lo: "x = 0 \<Longrightarrow> 16 \<le> y" using assms(3) x y by (simp add: accept_def acceptLo_def)
  have r: "r = x * 262144 + y * 4096 + z * 64 + w"
    unfolding r_def x y z w using xy by (simp only: lead_mod)
  show "0x10000 \<le> r" using xy lo unfolding r by (cases "x = 0") simp_all
  show "0xF0 + r div 262144 = b0" unfolding r x using xy by (simp only: pack3)
  show "0x80 + r div 4096 mod 64 = of_char c1" unfolding r y using xy by (simp only: pack3)
  show "0x80 + r div 64 mod 64 = of_char c2" unfolding r z using xy by (simp only: pack3)
  show "0x80 + r mod 64 = of_char c3" unfolding r w using xy by (simp only: pack3)
qed

lemma char_of_eqI: "n = (of_char c :: nat) \<Longrightarrow> char_of n = c"
  by auto

lemma Decode_Encode:
  assumes "DecodeRuneInString (c0 # s) = (r, n)" "(r, n) \<noteq> (RuneError, 1)"
  shows "EncodeRune r = take n (c0 # s)"
proof -
  let ?b0 = "of_char c0 :: nat"
  consider (one) "?b0 < 0x80"
    | (two) "0xC2 \<le> ?b0" "?b0 < 0xE0" "decode2 ?b0 s = (r, n)"
    | (three) "0xE0 \<le> ?b0" "?b0 < 0xF0" "decode3 ?b0 s = (r, n)"
    | (four) "0xF0 \<le> ?b0" "?b0 \<le> 0xF4" "decode4 ?b0 s = (r, n)"
    using assms by (auto simp: DecodeRuneInString.simps Let_def split: if_splits)
  then show ?thesis
  proof cases
    case one
    then show ?thesis using assms(1) by (auto simp: DecodeRuneInString.simps EncodeRune_def)
  next
    case two
    from two(3) assms(2) obtain c1 s1 where s: "s = c1 # s1" and a: "accept ?b0 c1"
      and r: "r = (?b0 mod 32) * 64 + of_char c1 mod 64" and n: "n = 2"
      by (cases "(?b0, s)" rule: decode2.cases) (auto split: if_splits)
    note e = enc2 [OF two(1,2) a, folded r]
    have "EncodeRune r = [char_of (0xC0 + r div 64), char_of (0x80 + r mod 64)]"
      using e(1,2) by (simp add: EncodeRune_def)
    also have "\<dots> = [c0, c1]"
      by (simp only: char_of_eqI [OF e(3)] char_of_eqI [OF e(4)])
    finally show ?thesis by (simp add: s n)
  next
    case three
    from three(3) assms(2) obtain c1 c2 s2 where s: "s = c1 # c2 # s2"
      and a: "accept ?b0 c1" "cont c2"
      and r: "r = (?b0 mod 16) * 4096 + (of_char c1 mod 64) * 64 + of_char c2 mod 64"
      and n: "n = 3"
      by (cases "(?b0, s)" rule: decode3.cases) (auto split: if_splits)
    note e = enc3 [OF three(1,2) a, folded r]
    have "EncodeRune r =
       [char_of (0xE0 + r div 4096), char_of (0x80 + r div 64 mod 64), char_of (0x80 + r mod 64)]"
      using e(1,2) by (simp add: EncodeRune_def)
    also have "\<dots> = [c0, c1, c2]"
      by (simp only: char_of_eqI [OF e(3)] char_of_eqI [OF e(4)] char_of_eqI [OF e(5)])
    finally show ?thesis by (simp add: s n)
  next
    case four
    from four(3) assms(2) obtain c1 c2 c3 s3 where s: "s = c1 # c2 # c3 # s3"
      and a: "accept ?b0 c1" "cont c2" "cont c3"
      and r: "r = (?b0 mod 8) * 262144 + (of_char c1 mod 64) * 4096 + (of_char c2 mod 64) * 64
                  + of_char c3 mod 64"
      and n: "n = 4"
      by (cases "(?b0, s)" rule: decode4.cases) (auto split: if_splits)
    note e = enc4 [OF four(1,2) a, folded r]
    have "EncodeRune r =
       [char_of (0xF0 + r div 262144), char_of (0x80 + r div 4096 mod 64),
        char_of (0x80 + r div 64 mod 64), char_of (0x80 + r mod 64)]"
      using e(1) by (simp add: EncodeRune_def)
    also have "\<dots> = [c0, c1, c2, c3]"
      by (simp only: char_of_eqI [OF e(2)] char_of_eqI [OF e(3)] char_of_eqI [OF e(4)]
          char_of_eqI [OF e(5)])
    finally show ?thesis by (simp add: s n)
  qed
qed


lemma cont_ge: "cont c \<Longrightarrow> 0x80 \<le> (of_char c :: nat)"
  by (simp add: cont_def)

lemma accept_ge: "accept b c \<Longrightarrow> 0x80 \<le> (of_char c :: nat)"
  by (auto simp: accept_def acceptLo_def split: if_splits)

lemma Decode_shape:
  "((of_char c0 :: nat) < 0x80 \<and> DecodeRuneInString (c0 # s) = (of_char c0, 1)) \<or>
   (0x80 \<le> (of_char c0 :: nat) \<and> DecodeRuneInString (c0 # s) = (RuneError, 1)) \<or>
   (\<exists>pre rest r. s = pre @ rest \<and> pre \<noteq> [] \<and>
       list_all (\<lambda>c. 0x80 \<le> (of_char c :: nat)) (c0 # pre) \<and> 0x80 \<le> r \<and>
       (\<forall>b. DecodeRuneInString (c0 # pre @ b) = (r, Suc (length pre))) \<and>
       EncodeRune r = c0 # pre)"
proof -
  let ?b0 = "of_char c0 :: nat"
  obtain r n where d: "DecodeRuneInString (c0 # s) = (r, n)"
    by (cases "DecodeRuneInString (c0 # s)") auto
  show ?thesis
  proof (cases "(r, n) = (RuneError, 1) \<or> ?b0 < 0x80")
    case True
    then show ?thesis using d by (auto simp: DecodeRuneInString.simps Let_def)
  next
    case False
    then have ne: "(r, n) \<noteq> (RuneError, 1)" and b0: "0x80 \<le> ?b0" by auto
    note enc = Decode_Encode [OF d ne]
    consider (two) "0xC2 \<le> ?b0" "?b0 < 0xE0" "decode2 ?b0 s = (r, n)"
      | (three) "0xE0 \<le> ?b0" "?b0 < 0xF0" "decode3 ?b0 s = (r, n)"
      | (four) "0xF0 \<le> ?b0" "?b0 \<le> 0xF4" "decode4 ?b0 s = (r, n)"
      using d ne b0 by (auto simp: DecodeRuneInString.simps Let_def split: if_splits)
    then have "\<exists>pre rest. s = pre @ rest \<and> pre \<noteq> [] \<and>
       list_all (\<lambda>c. 0x80 \<le> (of_char c :: nat)) pre \<and> 0x80 \<le> r \<and> n = Suc (length pre) \<and>
       (\<forall>b. DecodeRuneInString (c0 # pre @ b) = (r, Suc (length pre)))"
    proof cases
      case two
      from two(3) ne obtain c1 s1 where s: "s = c1 # s1" and a: "accept ?b0 c1"
        and r: "r = (?b0 mod 32) * 64 + of_char c1 mod 64" and n: "n = 2"
        by (cases "(?b0, s)" rule: decode2.cases) (auto split: if_splits)
      have "s = [c1] @ s1 \<and> [c1] \<noteq> [] \<and>
         list_all (\<lambda>c. 0x80 \<le> (of_char c :: nat)) [c1] \<and> 0x80 \<le> r \<and> n = Suc (length [c1]) \<and>
         (\<forall>b. DecodeRuneInString (c0 # [c1] @ b) = (r, Suc (length [c1])))"
        using two(1,2) a enc2(1) [OF two(1,2) a, folded r] accept_ge [OF a]
        by (simp add: s n r DecodeRuneInString.simps Let_def)
      then show ?thesis by blast
    next
      case three
      from three(3) ne obtain c1 c2 s2 where s: "s = c1 # c2 # s2"
        and a: "accept ?b0 c1" "cont c2"
        and r: "r = (?b0 mod 16) * 4096 + (of_char c1 mod 64) * 64 + of_char c2 mod 64"
        and n: "n = 3"
        by (cases "(?b0, s)" rule: decode3.cases) (auto split: if_splits)
      have "0x80 \<le> r" using enc3(1) [OF three(1,2) a, folded r] by simp
      then have "s = [c1, c2] @ s2 \<and> [c1, c2] \<noteq> [] \<and>
         list_all (\<lambda>c. 0x80 \<le> (of_char c :: nat)) [c1, c2] \<and> 0x80 \<le> r \<and>
         n = Suc (length [c1, c2]) \<and>
         (\<forall>b. DecodeRuneInString (c0 # [c1, c2] @ b) = (r, Suc (length [c1, c2])))"
        using three(1,2) a accept_ge [OF a(1)] cont_ge [OF a(2)]
        by (simp add: s n r DecodeRuneInString.simps Let_def)
      then show ?thesis by blast
    next
      case four
      from four(3) ne obtain c1 c2 c3 s3 where s: "s = c1 # c2 # c3 # s3"
        and a: "accept ?b0 c1" "cont c2" "cont c3"
        and r: "r = (?b0 mod 8) * 262144 + (of_char c1 mod 64) * 4096 + (of_char c2 mod 64) * 64
                  + of_char c3 mod 64"
        and n: "n = 4"
        by (cases "(?b0, s)" rule: decode4.cases) (auto split: if_splits)
      have "0x80 \<le> r" using enc4(1) [OF four(1,2) a, folded r] by simp
      then have "s = [c1, c2, c3] @ s3 \<and> [c1, c2, c3] \<noteq> [] \<and>
         list_all (\<lambda>c. 0x80 \<le> (of_char c :: nat)) [c1, c2, c3] \<and> 0x80 \<le> r \<and>
         n = Suc (length [c1, c2, c3]) \<and>
         (\<forall>b. DecodeRuneInString (c0 # [c1, c2, c3] @ b) = (r, Suc (length [c1, c2, c3])))"
        using four(1,2) a accept_ge [OF a(1)] cont_ge [OF a(2)] cont_ge [OF a(3)]
        by (simp add: s n r DecodeRuneInString.simps Let_def)
      then show ?thesis by blast
    qed
    then obtain pre rest where p: "s = pre @ rest" "pre \<noteq> []"
       "list_all (\<lambda>c. 0x80 \<le> (of_char c :: nat)) pre" "0x80 \<le> r" "n = Suc (length pre)"
       "\<forall>b. DecodeRuneInString (c0 # pre @ b) = (r, Suc (length pre))"
      by blast
    have "EncodeRune r = c0 # pre" using enc p(1,5) by simp
    then show ?thesis using p b0 by auto
  qed
qed



lemma decodeAll_step:
  "decodeAll (c # s) =
     DecodeRuneInString (c # s) # decodeAll (drop (snd (DecodeRuneInString (c # s)) - 1) s)"
  by simp

declare decodeAll.simps(2) [simp del]

lemma decodeAll_ascii:
  "list_all (\<lambda>c. (of_char c :: nat) < 0x80) s \<Longrightarrow> decodeAll s = map (\<lambda>c. (of_char c, 1)) s"
  by (induction s) (auto simp: decodeAll_step DecodeRuneInString.simps(2))

lemma decodeAll_append:
  "validUTF8 a \<Longrightarrow> decodeAll (a @ b) = decodeAll a @ decodeAll b"
proof (induction a rule: decodeAll.induct)
  case 1
  then show ?case by simp
next
  case (2 c s)
  let ?d = "DecodeRuneInString (c # s)"
  have ne: "?d \<noteq> (RuneError, 1)" and v: "validUTF8 (drop (snd ?d - 1) s)"
    using "2.prems" by (auto simp: validUTF8_def decodeAll_step)
  have "DecodeRuneInString (c # s @ b) = ?d \<and> snd ?d - 1 \<le> length s"
    using Decode_shape [of c s] ne
  proof (elim disjE exE conjE)
    assume "(of_char c :: nat) < 0x80"
    then show ?thesis by (simp add: DecodeRuneInString.simps(2))
  next
    assume "?d = (RuneError, 1)"
    then show ?thesis using ne by simp
  next
    fix pre rest r
    assume "s = pre @ rest" "\<forall>b. DecodeRuneInString (c # pre @ b) = (r, Suc (length pre))"
    then have "DecodeRuneInString (c # pre @ (rest @ b)) = (r, Suc (length pre))"
      "DecodeRuneInString (c # pre @ rest) = (r, Suc (length pre))" "s = pre @ rest"
      by blast+
    then show ?thesis by simp
  qed
  then have e: "DecodeRuneInString (c # s @ b) = ?d" and le: "snd ?d - 1 \<le> length s"
    by simp_all
  have "decodeAll ((c # s) @ b) = ?d # decodeAll (drop (snd ?d - 1) (s @ b))"
    by (simp add: decodeAll_step e)
  also have "drop (snd ?d - 1) (s @ b) = drop (snd ?d - 1) s @ b"
    using le by simp
  also have "decodeAll (drop (snd ?d - 1) s @ b) = decodeAll (drop (snd ?d - 1) s) @ decodeAll b"
    by (rule "2.IH" [OF v])
  finally have "decodeAll ((c # s) @ b)
      = ?d # (decodeAll (drop (snd ?d - 1) s) @ decodeAll b)" .
  also have "\<dots> = decodeAll (c # s) @ decodeAll b"
    by (simp add: decodeAll_step)
  finally show ?case .
qed

lemma runes_append: "validUTF8 a \<Longrightarrow> runes (a @ b) = runes a @ runes b"
  by (simp add: runes_def decodeAll_append)

lemma validUTF8_append: "validUTF8 a \<Longrightarrow> validUTF8 (a @ b) = validUTF8 b"
  by (simp add: validUTF8_def decodeAll_append)

lemma encode_runes: "validUTF8 s \<Longrightarrow> concat (map EncodeRune (runes s)) = s"
proof (induction s rule: decodeAll.induct)
  case 1
  then show ?case by (simp add: runes_def)
next
  case (2 c s)
  let ?d = "DecodeRuneInString (c # s)"
  have ne: "?d \<noteq> (RuneError, 1)" and v: "validUTF8 (drop (snd ?d - 1) s)"
    using "2.prems" by (auto simp: validUTF8_def decodeAll_step)
  have "EncodeRune (fst ?d) = take (snd ?d) (c # s)"
    using Decode_Encode [of c s "fst ?d" "snd ?d"] ne by simp
  moreover have "1 \<le> snd ?d" using DecodeRune_size [of c s] by simp
  ultimately have "EncodeRune (fst ?d) @ drop (snd ?d - 1) s = c # s"
    by (cases "snd ?d") auto
  then show ?case using "2.IH" [OF v] by (simp add: runes_def decodeAll_step)
qed

lemma runes_inj: "validUTF8 a \<Longrightarrow> validUTF8 b \<Longrightarrow> runes a = runes b \<Longrightarrow> a = b"
  by (metis encode_runes)

lemma newline_runes: "(0x0A \<in> set (runes s)) = (CHR 0x0A \<in> set s)"
proof (induction s rule: decodeAll.induct)
  case 1
  then show ?case by (simp add: runes_def)
next
  case (2 c s)
  let ?d = "DecodeRuneInString (c # s)"
  have ih: "(0x0A \<in> set (runes (drop (snd ?d - 1) s))) = (CHR 0x0A \<in> set (drop (snd ?d - 1) s))"
    using "2.IH" by simp
  have r: "runes (c # s) = fst ?d # runes (drop (snd ?d - 1) s)"
    by (simp add: runes_def decodeAll_step)
  consider (one) "(of_char c :: nat) < 0x80" "?d = (of_char c, 1)"
    | (bad) "0x80 \<le> (of_char c :: nat)" "?d = (RuneError, 1)"
    | (multi) pre rest r where "s = pre @ rest" "pre \<noteq> []"
       "list_all (\<lambda>c. 0x80 \<le> (of_char c :: nat)) (c # pre)" "0x80 \<le> r"
       "?d = (r, Suc (length pre))"
    using Decode_shape [of c s]
  proof (elim disjE exE conjE)
    fix pre rest r
    assume a: "s = pre @ rest" "pre \<noteq> []" "list_all (\<lambda>c. 0x80 \<le> (of_char c :: nat)) (c # pre)"
      "0x80 \<le> r" "\<forall>b. DecodeRuneInString (c # pre @ b) = (r, Suc (length pre))"
      and m: "\<And>pre rest r. s = pre @ rest \<Longrightarrow> pre \<noteq> [] \<Longrightarrow>
       list_all (\<lambda>c. 0x80 \<le> (of_char c :: nat)) (c # pre) \<Longrightarrow> 0x80 \<le> r \<Longrightarrow>
       ?d = (r, Suc (length pre)) \<Longrightarrow> thesis"
    from a(5) have "DecodeRuneInString (c # pre @ rest) = (r, Suc (length pre))" by blast
    then show thesis using m [OF a(1-4)] a(1) by simp
  qed auto
  then show ?case
  proof cases
    case one
    have "(of_char (CHR 0x0A) :: nat) = 10" by simp
    then have "((10::nat) = of_char c) = (CHR 0x0A = c)"
      using of_char_eq_iff [where ?'a = nat, of "CHR 0x0A" c] by simp
    then show ?thesis using ih unfolding r one(2) by auto
  next
    case bad
    then have "c \<noteq> CHR 0x0A" by auto
    then show ?thesis using ih unfolding r bad(2) by (auto simp: RuneError_def)
  next
    case multi
    have "CHR 0x0A \<notin> set (c # pre)"
      using multi(3) by (auto simp: list_all_iff)
    then show ?thesis using ih multi(4) unfolding r multi(5) by (auto simp: multi(1))
  qed
qed

subsection \<open>The matcher and checkIfChildren\<close>

lemma matches_NoMatch [simp]: "matches NoMatch w = False"
  by (induction w) auto

lemma matches_EmptyMatch [simp]: "matches EmptyMatch w = (w = [])"
  by (cases w) auto

lemma matches_Alternate [simp]: "matches (Alternate a b) w = (matches a w \<or> matches b w)"
  by (induction w arbitrary: a b) auto

lemma matches_Concat:
  "matches (Concat a b) w = (\<exists>u v. w = u @ v \<and> matches a u \<and> matches b v)"
proof (induction w arbitrary: a)
  case Nil
  then show ?case by simp
next
  case (Cons c w)
  show ?case
  proof
    assume "matches (Concat a b) (c # w)"
    then consider "\<exists>u v. w = u @ v \<and> matches (deriv c a) u \<and> matches b v"
      | "nullable a" "matches (deriv c b) w"
      using Cons.IH by (auto split: if_splits)
    then show "\<exists>u v. c # w = u @ v \<and> matches a u \<and> matches b v"
    proof cases
      case 1
      then obtain u v where "w = u @ v" "matches (deriv c a) u" "matches b v" by blast
      then have "c # w = (c # u) @ v \<and> matches a (c # u) \<and> matches b v" by simp
      then show ?thesis by blast
    next
      case 2
      then have "c # w = [] @ (c # w) \<and> matches a [] \<and> matches b (c # w)" by simp
      then show ?thesis by blast
    qed
  next
    assume "\<exists>u v. c # w = u @ v \<and> matches a u \<and> matches b v"
    then obtain u v where uv: "c # w = u @ v" "matches a u" "matches b v" by blast
    show "matches (Concat a b) (c # w)"
    proof (cases u)
      case Nil
      with uv show ?thesis using Cons.IH by auto
    next
      case (Cons d u')
      with uv have "w = u' @ v" "matches (deriv c a) u'" by auto
      with uv(3) show ?thesis using Cons.IH by auto
    qed
  qed
qed

lemma matches_Literal [simp]: "matches (Literal r) w = (w = [r])"
  by (cases w) auto

lemma matches_AnyCharNotNL [simp]: "matches AnyCharNotNL w = (\<exists>c. w = [c] \<and> c \<noteq> 0x0A)"
  by (cases w) auto

lemma matches_Star_AnyCharNotNL: "matches (Star AnyCharNotNL) w = (0x0A \<notin> set w)"
proof (induction w)
  case Nil
  then show ?case by simp
next
  case (Cons c w)
  have "matches (Star AnyCharNotNL) (c # w) =
        (\<exists>u v. w = u @ v \<and> matches (deriv c AnyCharNotNL) u \<and> matches (Star AnyCharNotNL) v)"
    by (simp add: matches_Concat)
  also have "\<dots> = (c \<noteq> 0x0A \<and> matches (Star AnyCharNotNL) w)"
    by auto
  finally show ?case using Cons.IH by auto
qed

lemma matches_literalThen:
  "matches (literalThen rs re) w = (\<exists>v. w = rs @ v \<and> matches re v)"
  by (induction rs arbitrary: w) (auto simp: matches_Concat)

lemma matches_childPattern:
  "matches (childPattern target) w =
     (w = runes target \<or> (\<exists>rest. w = runes target @ 0x2F # rest \<and> 0x0A \<notin> set rest))"
  by (auto simp: childPattern_def matches_literalThen matches_Concat matches_Star_AnyCharNotNL)


lemma validUTF8_ascii: "list_all (\<lambda>c. (of_char c :: nat) < 0x80) s \<Longrightarrow> validUTF8 s"
  by (fastforce simp: validUTF8_def decodeAll_ascii list_all_iff RuneError_def)

lemma EncodeRune_slash: "EncodeRune 0x2F = ''/''"
  by (simp add: EncodeRune_def char_of_eqI)

lemma runes_slash: "runes (CHR ''/'' # s) = 0x2F # runes s"
  by (simp add: runes_def decodeAll_step DecodeRuneInString.simps(2))

lemma validUTF8_slash: "validUTF8 (CHR ''/'' # s) = validUTF8 s"
  by (simp add: validUTF8_def decodeAll_step DecodeRuneInString.simps(2) RuneError_def)

lemma checkIfChildren_runes:
  "validUTF8 target \<Longrightarrow>
   checkIfChildren input target =
     Inr (runes input = runes target \<or>
          (\<exists>rest. runes input = runes target @ 0x2F # rest \<and> 0x0A \<notin> set rest))"
  by (simp add: checkIfChildren_def MustCompile_childPattern_def MatchString_def matches_childPattern)

lemma checkIfChildren_bytes:
  assumes "validUTF8 target" "validUTF8 input"
  shows "checkIfChildren input target =
     Inr (input = target \<or>
          (HasPrefix input (target @ ''/'') \<and>
           CHR 0x0A \<notin> set (drop (Suc (length target)) input)))"
proof -
  let ?R = "runes input = runes target \<or>
          (\<exists>rest. runes input = runes target @ 0x2F # rest \<and> 0x0A \<notin> set rest)"
  let ?B = "input = target \<or>
          (HasPrefix input (target @ ''/'') \<and>
           CHR 0x0A \<notin> set (drop (Suc (length target)) input))"
  have "?R = ?B"
  proof
    assume ?R
    then show ?B
    proof
      assume "runes input = runes target"
      then show ?B using runes_inj assms by blast
    next
      assume "\<exists>rest. runes input = runes target @ 0x2F # rest \<and> 0x0A \<notin> set rest"
      then obtain rest where r: "runes input = runes target @ 0x2F # rest" "0x0A \<notin> set rest"
        by blast
      define t where "t = concat (map EncodeRune rest)"
      have "input = concat (map EncodeRune (runes input))"
        using encode_runes [OF assms(2)] by simp
      also have "\<dots> = concat (map EncodeRune (runes target)) @ EncodeRune 0x2F @ t"
        by (simp add: r(1) t_def)
      also have "\<dots> = target @ CHR ''/'' # t"
        using encode_runes [OF assms(1)] by (simp add: EncodeRune_slash)
      finally have i: "input = target @ CHR ''/'' # t" .
      have "runes input = runes target @ 0x2F # runes t"
        unfolding i by (simp add: runes_append [OF assms(1)] runes_slash)
      then have "runes t = rest" using r(1) by simp
      then have "CHR 0x0A \<notin> set t" using r(2) newline_runes [of t] by simp
      then show ?B by (simp add: i HasPrefix_def)
    qed
  next
    assume ?B
    then show ?R
    proof
      assume "input = target"
      then show ?R by simp
    next
      assume b: "HasPrefix input (target @ ''/'') \<and>
           CHR 0x0A \<notin> set (drop (Suc (length target)) input)"
      define t where "t = drop (Suc (length target)) input"
      have "input = take (Suc (length target)) input @ t"
        by (simp add: t_def)
      then have i: "input = target @ CHR ''/'' # t"
        using b by (simp add: HasPrefix_def)
      have "runes input = runes target @ 0x2F # runes t"
        unfolding i by (simp add: runes_append [OF assms(1)] runes_slash)
      moreover have "0x0A \<notin> set (runes t)"
        using b newline_runes [of t] by (simp add: t_def)
      ultimately show ?R by blast
    qed
  qed
  then show ?thesis using checkIfChildren_runes [OF assms(1)] by simp
qed

text \<open>A scope that is not valid UTF-8 makes \<open>regexp.MustCompile\<close> panic.\<close>

lemma checkIfChildren_invalid:
  "\<not> validUTF8 target \<Longrightarrow> checkIfChildren input target = Inl RegexpCompile"
  by (simp add: checkIfChildren_def MustCompile_childPattern_def)

text \<open>
  C4, as the code has it: for a candidate and a scope that are valid UTF-8,
  \<open>checkIfChildren\<close> returns true exactly when the candidate equals the scope, or starts
  with the scope followed by \<open>/\<close> and has no newline after that slash (the \<open>.\<close> of the
  regular expression does not match a newline).
\<close>

theorem checkIfChildren_iff:
  assumes "validUTF8 target" "validUTF8 input"
  shows "checkIfChildren input target =
     Inr (input = target \<or>
          (\<exists>rest. input = target @ ''/'' @ rest \<and> CHR 0x0A \<notin> set rest))"
proof -
  have "(HasPrefix input (target @ ''/'') \<and> CHR 0x0A \<notin> set (drop (Suc (length target)) input))
      = (\<exists>rest. input = target @ ''/'' @ rest \<and> CHR 0x0A \<notin> set rest)"
  proof
    assume h: "HasPrefix input (target @ ''/'') \<and> CHR 0x0A \<notin> set (drop (Suc (length target)) input)"
    then have "take (Suc (length target)) input = target @ ''/''"
      by (simp add: HasPrefix_def)
    then have "input = (target @ ''/'') @ drop (Suc (length target)) input"
      by (metis append_take_drop_id)
    then have "input = target @ ''/'' @ drop (Suc (length target)) input"
      by simp
    then show "\<exists>rest. input = target @ ''/'' @ rest \<and> CHR 0x0A \<notin> set rest"
      using h by blast
  next
    assume "\<exists>rest. input = target @ ''/'' @ rest \<and> CHR 0x0A \<notin> set rest"
    then show "HasPrefix input (target @ ''/'') \<and> CHR 0x0A \<notin> set (drop (Suc (length target)) input)"
      by (auto simp: HasPrefix_def)
  qed
  then show ?thesis using checkIfChildren_bytes [OF assms] by simp
qed

text \<open>The three examples of the specification, from the theorem.\<close>

theorem checkIfChildren_iff_witness:
  "checkIfChildren ''/features/x'' ''/features'' = Inr True
   \<and> checkIfChildren ''/featuresX'' ''/features'' = Inr False
   \<and> checkIfChildren ''/features'' ''/features'' = Inr True"
  using checkIfChildren_iff [of "''/features''" "''/features/x''"]
    checkIfChildren_iff [of "''/features''" "''/featuresX''"]
    checkIfChildren_iff [of "''/features''" "''/features''"]
  by (simp add: validUTF8_ascii)

text \<open>
  C4, as stated, fails: a candidate that starts with the scope followed by \<open>/\<close> is rejected
  when a newline follows.
\<close>

theorem checkIfChildren_newline:
  "checkIfChildren (''/features/'' @ [CHR 0x0A]) ''/features'' = Inr False
   \<and> HasPrefix (''/features/'' @ [CHR 0x0A]) (''/features'' @ ''/'')"
  by (simp add: checkIfChildren_bytes validUTF8_ascii HasPrefix_def)

subsection \<open>download\<close>

text \<open>
  C6, as the code has it: \<open>download\<close> returns an error exactly when \<open>http.Get\<close> fails,
  or the status code is not 200 (\<open>http.StatusOK\<close>), or reading the body fails; and it
  returns bytes exactly when the request succeeds with status 200 and a readable body, the
  bytes being the body.
\<close>

theorem download_error_iff:
  "((\<exists>err. download get url = Inl err) \<longleftrightarrow>
      ((\<exists>err. get url = Inl err) \<or>
       (\<exists>resp. get url = Inr resp \<and>
          (StatusCode resp \<noteq> 200 \<or> (\<exists>err. Body resp = Inl err)))))
   \<and> ((download get url = Inr data) \<longleftrightarrow>
      (\<exists>resp. get url = Inr resp \<and> StatusCode resp = 200 \<and> Body resp = Inr data))"
  by (auto simp: download_def StatusOK_def split: sum.splits)

theorem download_error_iff_witness:
  "download okServer ''https://github.com/features'' = Inr ''one link''
   \<and> (\<exists>err. download createdServer ''https://github.com/features'' = Inl err)"
  using download_error_iff [of okServer "''https://github.com/features''" "''one link''"]
    download_error_iff [of createdServer "''https://github.com/features''" "[]"]
  by (simp add: okServer_def createdServer_def)

text \<open>
  C6, as stated, fails: a 201 response is a success (2xx) status, reached without any
  transport error, and \<open>download\<close> still returns an error.
\<close>

theorem download_201_is_error:
  "download createdServer ''https://github.com/features'' = Inl (Err ''invalid status code'')
   \<and> createdServer ''https://github.com/features'' = Inr \<lparr>StatusCode = 201, Body = Inr ''created''\<rparr>
   \<and> (200::int) \<le> 201 \<and> (201::int) < 300"
  by (simp add: download_def createdServer_def StatusOK_def)

subsection \<open>url.Parse on the URLs of the examples\<close>

lemmas url_Parse_eval =
  url_Parse_def parse_def before_def after_def beforeLast_def afterLast_def
  stringContainsCTLByte_def byte_def getScheme_def isLower_def isUpper_def isDigit_def
  ToLower_def HasPrefix_def parseAuthority_def parseHost_def setPath_def shouldEscapeHost_def
  validOptionalPort_def validUserinfo_def ishex_def unhex_def

lemma parse_root: "url_Parse ''github.com/'' = Inr \<lparr>Scheme = [], Host = [], Path = ''github.com/''\<rparr>"
  by (simp add: url_Parse_eval)

lemma parse_a:
  "url_Parse ''github.com/features/a'' = Inr \<lparr>Scheme = [], Host = [], Path = ''github.com/features/a''\<rparr>"
  by (simp add: url_Parse_eval)

lemma parse_b:
  "url_Parse ''github.com/features/b'' = Inr \<lparr>Scheme = [], Host = [], Path = ''github.com/features/b''\<rparr>"
  by (simp add: url_Parse_eval)

lemma parse_other:
  "url_Parse ''https://other.com/x'' = Inr \<lparr>Scheme = ''https'', Host = ''other.com'', Path = ''/x''\<rparr>"
  by (simp add: url_Parse_eval)

lemma parse_abs_b:
  "url_Parse ''https://github.com/features/b''
     = Inr \<lparr>Scheme = ''https'', Host = ''github.com'', Path = ''/features/b''\<rparr>"
  by (simp add: url_Parse_eval)

lemma parse_features:
  "url_Parse ''https://github.com/features''
     = Inr \<lparr>Scheme = ''https'', Host = ''github.com'', Path = ''/features''\<rparr>"
  by (simp add: url_Parse_eval)

lemma parse_features_a:
  "url_Parse ''https://github.com/features/a''
     = Inr \<lparr>Scheme = ''https'', Host = ''github.com'', Path = ''/features/a''\<rparr>"
  by (simp add: url_Parse_eval)

subsection \<open>extractUrls\<close>

lemmas hrefBody_eval =
  hrefBody_def sameDomain_def relativePath_def HasPrefix_def TrimSuffix_def HasSuffix_def
  checkIfChildren_bytes validUTF8_ascii

lemma href_top:
  "hrefBody ''https'' ''github.com/features'' ''github.com'' ''#top'' urls = Inr (True, urls)"
  by (simp add: hrefBody_def HasPrefix_def)

lemma href_root:
  "hrefBody ''https'' ''github.com/features'' ''github.com'' ''/'' urls = Inr (True, urls)"
  by (simp add: hrefBody_eval parse_root)

lemma href_a:
  "hrefBody ''https'' ''github.com/features'' ''github.com'' ''/features/a'' urls
     = Inr (True, urls @ [''https://github.com/features/a''])"
  by (simp add: hrefBody_eval parse_a)

lemma href_other:
  "hrefBody ''https'' ''github.com/features'' ''github.com'' ''https://other.com/x'' urls
     = Inr (True, urls)"
  by (simp add: hrefBody_eval parse_other)

lemma href_b:
  "hrefBody ''https'' ''github.com/features'' ''github.com'' ''https://github.com/features/b'' urls
     = Inr (True, urls @ [''https://github.com/features/b''])"
  by (simp add: hrefBody_eval parse_abs_b parse_b)

text \<open>The loops of \<open>extractUrls\<close> only read the \<open>href\<close> values of the anchors.\<close>

lemma attrLoop_hrefLoop:
  "attrLoop ts tu d attrs urls = hrefLoop ts tu d (map Val (filter (\<lambda>a. Key a = ''href'') attrs)) urls"
  by (induction attrs arbitrary: urls) (auto split: sum.splits bool.splits)

lemma anchorLoop_append:
  "anchorLoop ts tu d (xs @ ys) urls =
     (case anchorLoop ts tu d xs urls of Inl p \<Rightarrow> Inl p | Inr urls1 \<Rightarrow> anchorLoop ts tu d ys urls1)"
  by (induction xs arbitrary: urls) (auto split: sum.splits)

lemma f_anchorLoop:
  "f ts tu d n urls = anchorLoop ts tu d (hrefs n) urls"
  "childLoop ts tu d ns urls = anchorLoop ts tu d (hrefsOfList ns) urls"
  by (induction ts tu d n urls and ts tu d ns urls rule: f_childLoop.induct)
     (auto simp: attrLoop_hrefLoop anchorLoop_append split: sum.splits)

lemma extractUrls_hrefs:
  "extractUrls (Some n) parsedURL =
     (case anchorLoop (Scheme parsedURL) (Host parsedURL @ Path parsedURL) (Host parsedURL) (hrefs n) [] of
        Inl p \<Rightarrow> Inl p
      | Inr urls \<Rightarrow> Inr (urls, None))"
  by (simp add: extractUrls_def f_anchorLoop)

lemma hrefs_page: "hrefs (page hs) = map (\<lambda>h. [h]) hs"
  by (induction hs) (auto simp: page_def anchor_def)

text \<open>
  C5: a document whose anchors are, in order, \<open>#top\<close>, \<open>/\<close>, \<open>/features/a\<close>,
  \<open>https://other.com/x\<close> and \<open>https://github.com/features/b\<close>, extracted for the target
  \<open>https://github.com/features\<close>, yields exactly the two URLs below.
\<close>

theorem extractUrls_example:
  assumes "hrefs doc = [[''#top''], [''/''], [''/features/a''], [''https://other.com/x''],
                        [''https://github.com/features/b'']]"
  shows "extractUrls (Some doc) features
           = Inr ([''https://github.com/features/a'', ''https://github.com/features/b''], None)"
  by (simp add: extractUrls_hrefs assms features_def href_top href_root href_a href_other href_b)

theorem extractUrls_example_witness:
  "extractUrls (Some (page [''#top'', ''/'', ''/features/a'', ''https://other.com/x'',
                            ''https://github.com/features/b''])) features
     = Inr ([''https://github.com/features/a'', ''https://github.com/features/b''], None)"
  using extractUrls_example [of "page [''#top'', ''/'', ''/features/a'', ''https://other.com/x'',
                            ''https://github.com/features/b'']"]
  by (simp add: hrefs_page)

text \<open>
  C3 does not hold of the code: the loop under "avoid duplicates" skips nothing, and a page
  with the same link in two anchors yields the URL twice.
\<close>

theorem extractUrls_duplicate:
  "extractUrls (Some (page [''/features/a'', ''/features/a''])) features
     = Inr ([''https://github.com/features/a'', ''https://github.com/features/a''], None)
   \<and> \<not> distinct [''https://github.com/features/a'', ''https://github.com/features/a'']"
  by (simp add: extractUrls_hrefs hrefs_page features_def href_a)

subsection \<open>process: one call\<close>

lemma seen_iff: "seen urls target = (target \<in> set urls)"
proof -
  have "foldl (\<lambda>ok u. if target = u then True else ok) b urls = (b \<or> target \<in> set urls)" for b
    by (induction urls arbitrary: b) auto
  then show ?thesis by (simp add: seen_def)
qed

lemma normalize_Inr:
  "normalize u = Inr k \<longleftrightarrow> (\<exists>parsedURL. url_Parse (TrimSuffix u ''/'') = Inr parsedURL \<and> k = targetKey parsedURL)"
  by (auto simp: normalize_def split: sum.splits)

lemma process_seen:
  "url_Parse (TrimSuffix target ''/'') = Inr parsedURL \<Longrightarrow> targetKey parsedURL \<in> set (URLs st) \<Longrightarrow>
   process E st target = Returned None st []"
  by (simp add: process_def seen_iff)

lemma trim_features: "TrimSuffix ''https://github.com/features/'' ''/'' = ''https://github.com/features''"
  by (simp add: TrimSuffix_def HasSuffix_def)

lemma trim_features_plain: "TrimSuffix ''https://github.com/features'' ''/'' = ''https://github.com/features''"
  by (simp add: TrimSuffix_def HasSuffix_def)

lemma trim_features_a: "TrimSuffix ''https://github.com/features/a'' ''/'' = ''https://github.com/features/a''"
  by (simp add: TrimSuffix_def HasSuffix_def)

text \<open>
  C2: a call of \<open>process\<close> on a URL whose normalized form is already in \<open>URLs\<close> returns nil
  and leaves everything as it was: no event (no request, no file read or written, nothing
  extracted or printed), the same \<open>URLs\<close>, the same wait group, no goroutine started.
\<close>

theorem process_visited_noop:
  assumes "normalize rawURL = Inr k" "k \<in> set (URLs st)"
  shows "process E st rawURL = Returned None st []"
  using assms by (auto simp: normalize_Inr process_seen)

theorem process_visited_noop_witness:
  "process github (initial\<lparr>URLs := [''https://github.com/features'']\<rparr>) ''https://github.com/features/''
     = Returned None (initial\<lparr>URLs := [''https://github.com/features'']\<rparr>) []"
  using process_visited_noop [of "''https://github.com/features/''" "''https://github.com/features''"
      "initial\<lparr>URLs := [''https://github.com/features'']\<rparr>" github]
  by (simp add: normalize_def trim_features parse_features targetKey_def)

text \<open>
  A target that \<open>url.Parse\<close> rejects: \<open>process\<close> prints the error and goes on to read
  \<open>parsedURL.Scheme\<close> through the nil pointer.
\<close>

lemma process_parse_error:
  "url_Parse (TrimSuffix target ''/'') = Inl err \<Longrightarrow>
   process E st target = Panicked NilDereference (emit st [Printf ''error parsing the target: %v'' err])"
  by (simp add: process_def)

lemma parse_bad_escape: "url_Parse ''http://a.com/%'' = Inl (Err ''invalid URL escape'')"
  by (simp add: url_Parse_eval)

lemma parse_bad_host: "url_Parse ''http://a b.com'' = Inl (Err ''invalid character in host name'')"
  by (simp add: url_Parse_eval)

text \<open>
  C9 does not hold of the code: on the seed \<open>http://a.com/%\<close>, which does not parse,
  \<open>process\<close> returns nothing to its caller; it panics on a nil pointer.
\<close>

theorem process_malformed_seed:
  "process github initial ''http://a.com/%''
     = Panicked NilDereference
         (emit initial [Printf ''error parsing the target: %v'' (Err ''invalid URL escape'')])"
  by (simp add: process_parse_error TrimSuffix_def HasSuffix_def parse_bad_escape)

text \<open>No loop of \<open>extractUrls\<close> panics when the target is valid UTF-8.\<close>

lemma hrefBody_valid:
  "validUTF8 tu \<Longrightarrow> \<exists>r. hrefBody ts tu d v urls = Inr r"
  by (auto simp: hrefBody_def checkIfChildren_def MustCompile_childPattern_def
      split: flow.splits bool.splits)

lemma hrefLoop_valid:
  "validUTF8 tu \<Longrightarrow> \<exists>r. hrefLoop ts tu d vs urls = Inr r"
proof (induction vs arbitrary: urls)
  case Nil
  then show ?case by simp
next
  case (Cons v vs)
  obtain b urls1 where "hrefBody ts tu d v urls = Inr (b, urls1)"
    using hrefBody_valid [OF Cons.prems, of ts d v urls] by auto
  then show ?case using Cons.IH [OF Cons.prems, of urls1] by (cases b) auto
qed

lemma anchorLoop_valid:
  "validUTF8 tu \<Longrightarrow> \<exists>r. anchorLoop ts tu d vss urls = Inr r"
proof (induction vss arbitrary: urls)
  case Nil
  then show ?case by simp
next
  case (Cons vs vss)
  obtain urls1 where "hrefLoop ts tu d vs urls = Inr urls1"
    using hrefLoop_valid [OF Cons.prems, of ts d vs urls] by auto
  then show ?case using Cons.IH [OF Cons.prems, of urls1] by auto
qed

lemma extractUrls_valid:
  "validUTF8 (Host parsedURL @ Path parsedURL) \<Longrightarrow>
   \<exists>urls. extractUrls (Some doc) parsedURL = Inr (urls, None)"
  using anchorLoop_valid [of "Host parsedURL @ Path parsedURL" "Scheme parsedURL" "Host parsedURL"
      "hrefs doc" "[]"]
  by (auto simp: extractUrls_hrefs)

text \<open>A call on a target that parses and is not in \<open>URLs\<close>, after the page has been obtained.\<close>

lemma process_unseen:
  assumes "url_Parse (TrimSuffix target ''/'') = Inr parsedURL"
    and "targetKey parsedURL \<notin> set (URLs st)"
    and "obtainContent E (st\<lparr>URLs := URLs st @ [targetKey parsedURL]\<rparr>) (targetKey parsedURL)
           (filepath_Join (dir E) (Path parsedURL))
           (if path_Base (Path parsedURL) = ''.'' then ''index'' else path_Base (Path parsedURL))
         = (content, st2)"
  shows "process E st target =
     (case htmlParse E content of
        Inl e \<Rightarrow>
          Panicked NilDereference
            (emit (emit st2 [Printf ''error parsing html content: %v'' e])
               [Println [''extracting urls from '', Host parsedURL @ Path parsedURL]])
      | Inr doc \<Rightarrow>
         (case extractUrls (Some doc) parsedURL of
            Inl p \<Rightarrow>
              Panicked p (emit st2 [Println [''extracting urls from '', Host parsedURL @ Path parsedURL]])
          | Inr (urls, err) \<Rightarrow>
              Returned None
                ((emit st2 [Println [''extracting urls from '', Host parsedURL @ Path parsedURL]])
                   \<lparr>wg := wg st2 + int (length urls)\<rparr>) urls))"
proof -
  have "process E st target =
      (let (htmlContent, err) = parseHTML E content;
           st3 = (case err of
                    Some e \<Rightarrow> emit st2 [Printf ''error parsing html content: %v'' e]
                  | None \<Rightarrow> st2);
           st4 = emit st3 [Println [''extracting urls from '', Host parsedURL @ Path parsedURL]]
       in (case extractUrls htmlContent parsedURL of
             Inl p \<Rightarrow> Panicked p st4
           | Inr (urls, err) \<Rightarrow>
               Returned None (st4\<lparr>wg := wg st4 + int (length urls)\<rparr>) urls))"
    using assms by (simp add: process_def seen_iff Let_def)
  then show ?thesis
    by (simp add: parseHTML_def extractUrls_def Let_def emit_def split: sum.splits)
qed

lemma process_Returned_None:
  "process E st target = Returned err st' started \<Longrightarrow> err = None"
proof (cases "url_Parse (TrimSuffix target ''/'')")
  case (Inl e)
  assume "process E st target = Returned err st' started"
  then show ?thesis using Inl by (simp add: process_def)
next
  case (Inr parsedURL)
  assume r: "process E st target = Returned err st' started"
  show ?thesis
  proof (cases "targetKey parsedURL \<in> set (URLs st)")
    case True
    then show ?thesis using r process_seen [OF Inr True, of E] by simp
  next
    case False
    obtain content st2 where
      "obtainContent E (st\<lparr>URLs := URLs st @ [targetKey parsedURL]\<rparr>) (targetKey parsedURL)
           (filepath_Join (dir E) (Path parsedURL))
           (if path_Base (Path parsedURL) = ''.'' then ''index'' else path_Base (Path parsedURL))
         = (content, st2)"
      by (meson surj_pair)
    from process_unseen [OF Inr False this] r show ?thesis
      by (auto split: sum.splits prod.splits)
  qed
qed

lemmas path_eval =
  filepath_Join_def Clean_def HasPrefix_def path_Base_def afterLast_def before_def location_def

lemma join_features: "filepath_Join ''./data'' ''/features'' = ''data/features''"
  by (simp add: path_eval)

lemma join_features_a: "filepath_Join ''./data'' ''/features/a'' = ''data/features/a''"
  by (simp add: path_eval)

lemma base_features: "path_Base ''/features'' = ''features''"
  by (simp add: path_eval)

lemma base_features_a: "path_Base ''/features/a'' = ''a''"
  by (simp add: path_eval)

text \<open>With no network and no way to save, the call prints both errors and returns nil.\<close>

lemma process_offline:
  "process offline initial ''https://github.com/features'' =
     Returned None
       \<lparr>URLs = [''https://github.com/features''], wg = 0, files = Map.empty,
        events = [ReadFile ''data/features/features.html'',
                  Println [''data/features'', ''does not exist. downloading and saving...''],
                  Println [''downloading'', ''https://github.com/features''],
                  NetGet ''https://github.com/features'',
                  Printf ''error downloading the target: %v'' (Err ''no route to host''),
                  MkdirAll ''data/features'',
                  Printf ''error saving the target: %v'' (Err ''permission denied''),
                  Println [''extracting urls from '', ''github.com/features'']]\<rparr> []"
proof -
  let ?p = "\<lparr>Scheme = ''https'', Host = ''github.com'', Path = ''/features''\<rparr>"
  have parse: "url_Parse (TrimSuffix ''https://github.com/features'' ''/'') = Inr ?p"
    by (simp add: trim_features_plain parse_features)
  have unseen: "targetKey ?p \<notin> set (URLs initial)"
    by (simp add: initial_def)
  have oc: "obtainContent offline (initial\<lparr>URLs := URLs initial @ [targetKey ?p]\<rparr>) (targetKey ?p)
         (filepath_Join (dir offline) (Path ?p))
         (if path_Base (Path ?p) = ''.'' then ''index'' else path_Base (Path ?p))
       = ([], \<lparr>URLs = [''https://github.com/features''], wg = 0, files = Map.empty,
        events = [ReadFile ''data/features/features.html'',
                  Println [''data/features'', ''does not exist. downloading and saving...''],
                  Println [''downloading'', ''https://github.com/features''],
                  NetGet ''https://github.com/features'',
                  Printf ''error downloading the target: %v'' (Err ''no route to host''),
                  MkdirAll ''data/features'',
                  Printf ''error saving the target: %v'' (Err ''permission denied'')]\<rparr>)"
    by (simp add: obtainContent_def checkForFile_def initial_def offline_def emit_def download_def
        save_def targetKey_def join_features base_features)
  show ?thesis
    unfolding process_unseen [OF parse unseen oc]
    by (simp add: offline_def extractUrls_hrefs hrefs_page emit_def)
qed

text \<open>
  C10 does not hold of the code: on the target \<open>http://a b.com\<close>, which \<open>url.Parse\<close>
  rejects, \<open>process\<close> prints the error and then, instead of returning nil, panics on the nil
  pointer. (The errors of \<open>download\<close> and \<open>save\<close> are printed and swallowed, as the lemma
  above shows on a world without network and without a writable directory.)
\<close>

theorem process_unparsable_panics:
  "process github initial ''http://a b.com''
     = Panicked NilDereference
         (emit initial [Printf ''error parsing the target: %v'' (Err ''invalid character in host name'')])"
  by (simp add: process_parse_error TrimSuffix_def HasSuffix_def parse_bad_host)

subsection \<open>Two calls of process at once\<close>

text \<open>
  C1 does not hold of the code: two goroutines called on the same key can both find it
  absent before either appends it, and then both append it and both go on to the page. The
  check and the append are two steps, and only the second is under the mutex.
\<close>

theorem both_goroutines_reach_page:
  "step\<^sup>*\<^sup>* ([], [AtLoop k, AtLoop k]) ([k, k], [AtPage k, AtPage k])"
proof -
  have s1: "step ([], [AtLoop k, AtLoop k]) ([], [AtAppend k, AtLoop k])"
    using loop_absent [of 0 "[AtLoop k, AtLoop k]" k "[]"] by (simp add: seen_def)
  have s2: "step ([], [AtAppend k, AtLoop k]) ([], [AtAppend k, AtAppend k])"
    using loop_absent [of 1 "[AtAppend k, AtLoop k]" k "[]"] by (simp add: seen_def)
  have s3: "step ([], [AtAppend k, AtAppend k]) ([k], [AtPage k, AtAppend k])"
    using append_key [of 0 "[AtAppend k, AtAppend k]" k "[]"] by simp
  have s4: "step ([k], [AtPage k, AtAppend k]) ([k, k], [AtPage k, AtPage k])"
    using append_key [of 1 "[AtPage k, AtAppend k]" k "[k]"] by simp
  from s1 s2 s3 s4 show ?thesis by (meson rtranclp.rtrancl_into_rtrancl rtranclp.rtrancl_refl)
qed

subsection \<open>The mirror as a cache\<close>

lemma obtainContent_cached:
  "files st (fp @ ''/'' @ fileName @ ''.html'') = Some content \<Longrightarrow>
   obtainContent E st target fp fileName =
     (content, emit st [ReadFile (fp @ ''/'' @ fileName @ ''.html''), Println [fp, ''already exists'']])"
  by (simp add: obtainContent_def checkForFile_def)

lemma process_cached:
  assumes "url_Parse (TrimSuffix target ''/'') = Inr parsedURL"
    and "targetKey parsedURL \<notin> set (URLs st)"
    and "files st (location E parsedURL) = Some content"
  shows "process E st target =
     (case htmlParse E content of
        Inl e \<Rightarrow>
          Panicked NilDereference
            (st\<lparr>URLs := URLs st @ [targetKey parsedURL],
                events := events st @
                  [ReadFile (location E parsedURL),
                   Println [filepath_Join (dir E) (Path parsedURL), ''already exists''],
                   Printf ''error parsing html content: %v'' e,
                   Println [''extracting urls from '', Host parsedURL @ Path parsedURL]]\<rparr>)
      | Inr doc \<Rightarrow>
         (case extractUrls (Some doc) parsedURL of
            Inl p \<Rightarrow>
              Panicked p
                (st\<lparr>URLs := URLs st @ [targetKey parsedURL],
                    events := events st @
                      [ReadFile (location E parsedURL),
                       Println [filepath_Join (dir E) (Path parsedURL), ''already exists''],
                       Println [''extracting urls from '', Host parsedURL @ Path parsedURL]]\<rparr>)
          | Inr (urls, err) \<Rightarrow>
              Returned None
                (st\<lparr>URLs := URLs st @ [targetKey parsedURL],
                    wg := wg st + int (length urls),
                    events := events st @
                      [ReadFile (location E parsedURL),
                       Println [filepath_Join (dir E) (Path parsedURL), ''already exists''],
                       Println [''extracting urls from '', Host parsedURL @ Path parsedURL]]\<rparr>)
                urls))"
proof -
  let ?fp = "filepath_Join (dir E) (Path parsedURL)"
  let ?fn = "if path_Base (Path parsedURL) = ''.'' then ''index'' else path_Base (Path parsedURL)"
  let ?st1 = "st\<lparr>URLs := URLs st @ [targetKey parsedURL]\<rparr>"
  have "files ?st1 (?fp @ ''/'' @ ?fn @ ''.html'') = Some content"
    using assms(3) by (simp add: location_def)
  from process_unseen [OF assms(1,2) obtainContent_cached [OF this]]
  show ?thesis
    by (simp add: location_def emit_def split: sum.splits prod.splits)
qed

lemma fetches_append: "fetches (st\<lparr>events := events st @ evs\<rparr>) = fetches st @ fetches (st\<lparr>events := evs\<rparr>)"
  by (simp add: fetches_def)

text \<open>What a crawl over a populated mirror keeps.\<close>

lemma crawl_populated:
  assumes "populated E fs seed" "files st0 = fs"
    and "crawl E (st0, [seed]) (st1, pending)"
  shows "files st1 = fs \<and> fetches st1 = fetches st0 \<and> set pending \<subseteq> mirrored E fs seed"
  using assms(3)
proof (induction "(st0, [seed])" "(st1, pending)" arbitrary: st1 pending rule: crawl.induct)
  case crawl_start
  then show ?case using assms(2) by (simp add: mirrored_seed)
next
  case (crawl_call st pending i err st' started)
  then have inv: "files st = fs" "fetches st = fetches st0" "set pending \<subseteq> mirrored E fs seed"
    by simp_all
  let ?t = "pending ! i"
  have t: "?t \<in> mirrored E fs seed" using inv(3) crawl_call.hyps(3) by auto
  have rest: "set (take i pending @ drop (Suc i) pending) \<subseteq> mirrored E fs seed"
    using inv(3) set_take_subset [of i pending] set_drop_subset [of "Suc i" pending] by auto
  note ret = crawl_call.hyps(4)
  obtain parsedURL where parse: "url_Parse (TrimSuffix ?t ''/'') = Inr parsedURL"
    using ret process_parse_error [of ?t _ E st] by (cases "url_Parse (TrimSuffix ?t ''/'')") auto
  show ?case
  proof (cases "targetKey parsedURL \<in> set (URLs st)")
    case True
    then have "st' = st \<and> started = []"
      using ret process_seen [OF parse True, of E] by simp
    then show ?thesis using inv rest by simp
  next
    case False
    obtain content where c: "fs (location E parsedURL) = Some content"
      using assms(1) t parse by (auto simp: populated_def)
    then have c': "files st (location E parsedURL) = Some content" using inv(1) by simp
    note p = process_cached [OF parse False c']
    obtain doc where d: "htmlParse E content = Inr doc"
      using ret unfolding p by (cases "htmlParse E content") auto
    obtain urls e where u: "extractUrls (Some doc) parsedURL = Inr (urls, e)"
      using ret unfolding p by (cases "extractUrls (Some doc) parsedURL") (auto simp: d)
    have st': "st' = st\<lparr>URLs := URLs st @ [targetKey parsedURL],
                    wg := wg st + int (length urls),
                    events := events st @
                      [ReadFile (location E parsedURL),
                       Println [filepath_Join (dir E) (Path parsedURL), ''already exists''],
                       Println [''extracting urls from '', Host parsedURL @ Path parsedURL]]\<rparr>"
      and started: "started = urls"
      using ret unfolding p by (auto simp: d u)
    have "set urls \<subseteq> mirrored E fs seed"
      using mirrored_link [OF t parse c d u] by blast
    moreover have "files st' = fs" using inv(1) by (simp add: st')
    moreover have "fetches st' = fetches st0" using inv(2) by (simp add: st' fetches_def)
    ultimately show ?thesis using rest started by simp
  qed
qed

text \<open>
  C8: a call on a newly claimed URL whose file is in the store reads that file, parses its
  content, and does nothing else to the outside: no request to the network, no directory
  or file created or written, the store unchanged. Hence a crawl from a seed over a
  populated mirror makes no request and leaves the store as it is.
\<close>

theorem process_cached_no_fetch:
  "(url_Parse (TrimSuffix target ''/'') = Inr parsedURL \<longrightarrow>
    targetKey parsedURL \<notin> set (URLs st) \<longrightarrow>
    files st (location E parsedURL) = Some content \<longrightarrow>
      files (stateOf (process E st target)) = files st \<and>
      events (stateOf (process E st target)) =
        events st @
        [ReadFile (location E parsedURL),
         Println [filepath_Join (dir E) (Path parsedURL), ''already exists'']] @
        (case htmlParse E content of
           Inl e \<Rightarrow> [Printf ''error parsing html content: %v'' e]
         | Inr doc \<Rightarrow> []) @
        [Println [''extracting urls from '', Host parsedURL @ Path parsedURL]] \<and>
      fetches (stateOf (process E st target)) = fetches st)
   \<and> (populated E (files st0) seed \<longrightarrow> crawl E (st0, [seed]) (st1, pending) \<longrightarrow>
        fetches st1 = fetches st0 \<and> files st1 = files st0)"
proof (intro conjI impI)
  assume a: "url_Parse (TrimSuffix target ''/'') = Inr parsedURL"
    "targetKey parsedURL \<notin> set (URLs st)" "files st (location E parsedURL) = Some content"
  note p = process_cached [OF a]
  show "files (stateOf (process E st target)) = files st"
    unfolding p by (simp add: stateOf_def split: sum.splits prod.splits)
  show "events (stateOf (process E st target)) =
        events st @
        [ReadFile (location E parsedURL),
         Println [filepath_Join (dir E) (Path parsedURL), ''already exists'']] @
        (case htmlParse E content of
           Inl e \<Rightarrow> [Printf ''error parsing html content: %v'' e]
         | Inr doc \<Rightarrow> []) @
        [Println [''extracting urls from '', Host parsedURL @ Path parsedURL]]"
    unfolding p by (simp add: stateOf_def split: sum.splits prod.splits)
  show "fetches (stateOf (process E st target)) = fetches st"
    unfolding p by (simp add: stateOf_def fetches_def split: sum.splits prod.splits)
next
  assume "populated E (files st0) seed" "crawl E (st0, [seed]) (st1, pending)"
  from crawl_populated [OF this(1) refl this(2)]
  show "fetches st1 = fetches st0" "files st1 = files st0" by simp_all
qed

text \<open>The crawl of the example site over its mirror.\<close>

lemma location_features: "location github features = ''data/features/features.html''"
  by (simp add: location_def github_def features_def join_features base_features)

lemma location_features_a:
  "location github \<lparr>Scheme = ''https'', Host = ''github.com'', Path = ''/features/a''\<rparr>
     = ''data/features/a/a.html''"
  by (simp add: location_def github_def join_features_a base_features_a)

lemma parse_seed: "url_Parse (TrimSuffix ''https://github.com/features'' ''/'') = Inr features"
  by (simp add: trim_features_plain parse_features features_def)

lemma parse_child:
  "url_Parse (TrimSuffix ''https://github.com/features/a'' ''/'')
     = Inr \<lparr>Scheme = ''https'', Host = ''github.com'', Path = ''/features/a''\<rparr>"
  by (simp add: trim_features_a parse_features_a)

lemma href_a_self:
  "hrefBody ''https'' ''github.com/features/a'' ''github.com'' ''/features/a'' urls = Inr (True, urls)"
  by (simp add: hrefBody_eval parse_a)

lemma extract_seed:
  "extractUrls (Some (page [''/features/a''])) features = Inr ([''https://github.com/features/a''], None)"
  by (simp add: extractUrls_hrefs hrefs_page features_def href_a)

lemma extract_child:
  "extractUrls (Some (page [''/features/a'']))
     \<lparr>Scheme = ''https'', Host = ''github.com'', Path = ''/features/a''\<rparr> = Inr ([], None)"
  by (simp add: extractUrls_hrefs hrefs_page href_a_self)

lemma process_seed_cached:
  "process github mirrorState ''https://github.com/features''
     = Returned None afterSeed [''https://github.com/features/a'']"
proof -
  have u: "targetKey features \<notin> set (URLs mirrorState)" by (simp add: mirrorState_def)
  have c: "files mirrorState (location github features) = Some ''one link''"
    by (simp add: location_features mirrorState_def mirror_def)
  have h: "htmlParse github ''one link'' = Inr (page [''/features/a''])" by (simp add: github_def)
  show ?thesis
    unfolding process_cached [OF parse_seed u c] h
    by (simp add: extract_seed location_features)
       (simp add: mirrorState_def afterSeed_def targetKey_def features_def github_def join_features)
qed

lemma process_child_cached:
  "process github afterSeed ''https://github.com/features/a'' = Returned None afterBoth []"
proof -
  let ?p = "\<lparr>Scheme = ''https'', Host = ''github.com'', Path = ''/features/a''\<rparr>"
  have u: "targetKey ?p \<notin> set (URLs afterSeed)" by (simp add: afterSeed_def targetKey_def)
  have c: "files afterSeed (location github ?p) = Some ''one link''"
    by (simp add: location_features_a afterSeed_def mirror_def)
  have h: "htmlParse github ''one link'' = Inr (page [''/features/a''])" by (simp add: github_def)
  show ?thesis
    unfolding process_cached [OF parse_child u c] h
    by (simp add: extract_child location_features_a)
       (simp add: afterSeed_def afterBoth_def targetKey_def github_def join_features_a)
qed

lemma crawl_example:
  "crawl github (mirrorState, [''https://github.com/features'']) (afterBoth, [])"
proof -
  have "crawl github (mirrorState, [''https://github.com/features''])
          (afterSeed, [''https://github.com/features/a''])"
    using crawl_call [OF crawl_start, of 0 "[''https://github.com/features'']" github mirrorState
        None afterSeed "[''https://github.com/features/a'']"]
    by (simp add: process_seed_cached)
  from crawl_call [OF this, of 0 None afterBoth "[]"]
  show ?thesis by (simp add: process_child_cached)
qed

lemma mirrored_example:
  "t \<in> mirrored github mirror ''https://github.com/features'' \<Longrightarrow>
   t = ''https://github.com/features'' \<or> t = ''https://github.com/features/a''"
proof (induction rule: mirrored.induct)
  case mirrored_seed
  then show ?case by simp
next
  case (mirrored_link t parsedURL content doc urls err u)
  have doc: "doc = page [''/features/a'']" using mirrored_link.hyps(4) by (simp add: github_def)
  from mirrored_link.IH show ?case
  proof
    assume "t = ''https://github.com/features''"
    then have "parsedURL = features" using mirrored_link.hyps(2) parse_seed by simp
    then show ?thesis using mirrored_link.hyps(5,6) by (auto simp: doc extract_seed)
  next
    assume "t = ''https://github.com/features/a''"
    then have "parsedURL = \<lparr>Scheme = ''https'', Host = ''github.com'', Path = ''/features/a''\<rparr>"
      using mirrored_link.hyps(2) parse_child by simp
    then show ?thesis using mirrored_link.hyps(5,6) by (auto simp: doc extract_child)
  qed
qed

lemma populated_example: "populated github mirror ''https://github.com/features''"
  unfolding populated_def
proof (intro allI impI)
  fix t parsedURL
  assume "t \<in> mirrored github mirror ''https://github.com/features''"
    and p: "url_Parse (TrimSuffix t ''/'') = Inr parsedURL"
  from mirrored_example [OF this(1)] show "mirror (location github parsedURL) \<noteq> None"
  proof
    assume "t = ''https://github.com/features''"
    then have "parsedURL = features" using p parse_seed by simp
    then show ?thesis by (simp add: location_features mirror_def)
  next
    assume "t = ''https://github.com/features/a''"
    then have "parsedURL = \<lparr>Scheme = ''https'', Host = ''github.com'', Path = ''/features/a''\<rparr>"
      using p parse_child by simp
    then show ?thesis by (simp add: location_features_a mirror_def)
  qed
qed

theorem process_cached_no_fetch_witness:
  "url_Parse (TrimSuffix ''https://github.com/features'' ''/'') = Inr features
   \<and> targetKey features \<notin> set (URLs mirrorState)
   \<and> files mirrorState (location github features) = Some ''one link''
   \<and> events (stateOf (process github mirrorState ''https://github.com/features'')) =
        [ReadFile ''data/features/features.html'',
         Println [''data/features'', ''already exists''],
         Println [''extracting urls from '', ''github.com/features'']]
   \<and> fetches (stateOf (process github mirrorState ''https://github.com/features'')) = []
   \<and> populated github (files mirrorState) ''https://github.com/features''
   \<and> crawl github (mirrorState, [''https://github.com/features'']) (afterBoth, [])
   \<and> fetches afterBoth = [] \<and> files afterBoth = files mirrorState"
  using process_cached_no_fetch [of "''https://github.com/features''" features mirrorState github
      "''one link''" mirrorState "''https://github.com/features''" afterBoth "[]"]
    populated_example crawl_example parse_seed
  by (simp add: location_features)
     (simp add: mirrorState_def targetKey_def features_def mirror_def github_def fetches_def
        join_features)

subsection \<open>Normalization\<close>
















































text \<open>
  Beyond the plain URLs a second pass can change the result as well: an escaped percent sign
  is decoded once in each pass, and a string without a scheme is normalized to one that
  \<open>url.Parse\<close> rejects.
\<close>

lemma hex_values: "char_of (4 * 16 + 1 :: nat) = CHR ''A''" "char_of (2 * 16 + 5 :: nat) = CHR ''%''"
  by (simp_all add: char_of_eqI)

lemma parse_escaped_twice:
  "url_Parse ''http://a.com/%2541'' = Inr \<lparr>Scheme = ''http'', Host = ''a.com'', Path = ''/%41''\<rparr>"
  using hex_values by (simp add: url_Parse_eval)

lemma parse_escaped_once:
  "url_Parse ''http://a.com/%41'' = Inr \<lparr>Scheme = ''http'', Host = ''a.com'', Path = ''/A''\<rparr>"
  using hex_values by (simp add: url_Parse_eval)

lemma normalize_escaped:
  "normalize ''http://a.com/%2541'' = Inr ''http://a.com/%41''
   \<and> normalizeTwice ''http://a.com/%2541'' = Inr ''http://a.com/A''"
  by (simp add: normalizeTwice_def normalize_def TrimSuffix_def HasSuffix_def parse_escaped_twice
      parse_escaped_once targetKey_def)

lemma parse_relative: "url_Parse ''features'' = Inr \<lparr>Scheme = [], Host = [], Path = ''features''\<rparr>"
  by (simp add: url_Parse_eval)

lemma parse_no_scheme: "url_Parse ''://features'' = Inl (Err ''missing protocol scheme'')"
  by (simp add: url_Parse_eval)

lemma normalize_relative:
  "normalize ''features'' = Inr ''://features'' \<and> normalizeTwice ''features'' = Inl NilDereference"
  by (simp add: normalizeTwice_def normalize_def TrimSuffix_def HasSuffix_def parse_relative
      parse_no_scheme targetKey_def)

end
